theory Spec2Isabelle
  imports Complex_Main
begin

section \<open>Python values, exceptions and the string operations the module uses\<close>

text \<open>
  The module \<^verbatim>\<open>sage/dynamics/interval_exchanges/constructors.py\<close> is Python 2 code.
  An exception is a value of type \<open>error\<close>; a function that may raise returns
  \<open>error + 'a\<close>, with \<open>Inl\<close> for the exception.
\<close>

datatype error =
    ValueError string | TypeError string | IndexError string | OverflowError string

text \<open>
  The values that reach the constructors: a \<^verbatim>\<open>str\<close>, an integer (an object without
  \<^verbatim>\<open>__len__\<close>), a group-theoretic permutation of \<^verbatim>\<open>sage.combinat.permutation\<close> in
  one-line notation, and a list or tuple. Letters of a permutation are such values too
  (strings, integers, tuples); hashing a letter is taken to succeed.
\<close>

datatype pyval = PStr string | PInt int | PPerm "int list" | PSeq "pyval list"

definition is_space :: "char \<Rightarrow> bool" where
  \<comment> \<open>the whitespace of an 8-bit Python 2 \<^verbatim>\<open>str\<close>: space, tab, newline, vertical tab,
      form feed, carriage return\<close>
  "is_space c = (c = CHR 0x20 \<or> c = CHR 0x09 \<or> c = CHR 0x0A \<or> c = CHR 0x0B
                 \<or> c = CHR 0x0C \<or> c = CHR 0x0D)"

fun split_ws_from :: "string \<Rightarrow> string \<Rightarrow> string list" where
  "split_ws_from w [] = (if w = [] then [] else [w])"
| "split_ws_from w (c # cs) =
     (if is_space c
      then (if w = [] then split_ws_from [] cs else w # split_ws_from [] cs)
      else split_ws_from (w @ [c]) cs)"

definition split_ws :: "string \<Rightarrow> string list" where
  \<comment> \<open>\<^verbatim>\<open>s.split()\<close>: the maximal runs of non-whitespace characters\<close>
  "split_ws s = split_ws_from [] s"

fun split_on_from :: "char \<Rightarrow> string \<Rightarrow> string \<Rightarrow> string list" where
  "split_on_from sep w [] = [w]"
| "split_on_from sep w (c # cs) =
     (if c = sep then w # split_on_from sep [] cs else split_on_from sep (w @ [c]) cs)"

definition split_on :: "char \<Rightarrow> string \<Rightarrow> string list" where
  \<comment> \<open>\<^verbatim>\<open>s.split(sep)\<close> for a one-character separator: empty pieces are kept\<close>
  "split_on sep s = split_on_from sep [] s"

definition newline :: char where
  "newline = CHR 0x0A"

section \<open>\<^verbatim>\<open>_two_lists\<close>: the input as two rows\<close>

fun row_of :: "pyval \<Rightarrow> error + pyval list" where
  \<comment> \<open>the body of the loops over \<^verbatim>\<open>range(2)\<close>: \<^verbatim>\<open>a[i].split()\<close> for a string,
      \<^verbatim>\<open>list(a[i])\<close> otherwise (which raises on an object that is not iterable)\<close>
  "row_of (PStr s) = Inr (map PStr (split_ws s))"
| "row_of (PInt n) = Inl (TypeError ([CHR 0x27] @ ''int'' @ [CHR 0x27] @ '' object is not iterable''))"
| "row_of (PPerm p) = Inr (map PInt p)"
| "row_of (PSeq xs) = Inr xs"

definition two_rows :: "pyval \<Rightarrow> pyval \<Rightarrow> error + (pyval list \<times> pyval list)" where
  "two_rows x y =
     (case row_of x of
        Inl e \<Rightarrow> Inl e
      | Inr r0 \<Rightarrow> (case row_of y of Inl e \<Rightarrow> Inl e | Inr r1 \<Rightarrow> Inr (r0, r1)))"

definition perm_rows :: "int list \<Rightarrow> pyval list \<times> pyval list" where
  \<comment> \<open>\<^verbatim>\<open>range(1,len(a)+1)\<close> and \<^verbatim>\<open>[a[i] for i in range(len(a))]\<close>\<close>
  "perm_rows p = (map PInt [1..int (length p)], map PInt p)"

fun two_lists :: "pyval \<Rightarrow> error + (pyval list \<times> pyval list)" where
  "two_lists (PStr s) =
     (let a = split_on newline s in
      if length a \<noteq> 2 then Inl (ValueError ''your chain must contain two lines'')
      else Inr (map PStr (split_ws (a ! 0)), map PStr (split_ws (a ! 1))))"
| "two_lists (PPerm p) = Inr (perm_rows p)"
| "two_lists (PInt n) = Inl (TypeError ''argument not accepted'')"
| "two_lists (PSeq a) =
     (if length a = 0 \<or> length a > 2
      then Inl (ValueError ''your argument can not be split in two parts'')
      else if length a = 1 then
        (case a ! 0 of
           PPerm p \<Rightarrow> Inr (perm_rows p)
         | PSeq b \<Rightarrow>
             (if length b \<noteq> 2 then Inl (ValueError ''your list must contain two objects'')
              else two_rows (b ! 0) (b ! 1))
         | _ \<Rightarrow> Inl (TypeError ''argument not accepted''))
      else two_rows (a ! 0) (a ! 1))"

section \<open>Permutation objects and keyword arguments\<close>

text \<open>
  The eight concrete classes are defined in \<^verbatim>\<open>labelled.py\<close> and \<^verbatim>\<open>reduced.py\<close>.
  The constructors below only decide which class is built and with which arguments, so
  an object is its class together with the arguments it was built from.
\<close>

datatype perm_class =
    LabelledPermutationIET | FlippedLabelledPermutationIET
  | ReducedPermutationIET | FlippedReducedPermutationIET
  | LabelledPermutationLI | FlippedLabelledPermutationLI
  | ReducedPermutationLI | FlippedReducedPermutationLI

record perm_obj =
  obj_class :: perm_class
  obj_intervals :: "pyval list \<times> pyval list"
  obj_alphabet :: "pyval option"
  obj_flips :: "pyval list"

definition new_perm ::
  "perm_class \<Rightarrow> pyval list \<times> pyval list \<Rightarrow> pyval option \<Rightarrow> pyval list \<Rightarrow> perm_obj" where
  \<comment> \<open>Modelled from the spec: the variant constructors of \<^verbatim>\<open>labelled.py\<close> and
      \<^verbatim>\<open>reduced.py\<close>, each accepting the row pair, the alphabet and the flips.\<close>
  "new_perm c a alphabet flips =
     \<lparr>obj_class = c, obj_intervals = a, obj_alphabet = alphabet, obj_flips = flips\<rparr>"

definition is_LabelledPermutation :: "perm_class \<Rightarrow> bool" where
  \<comment> \<open>Modelled from the spec: \<^verbatim>\<open>isinstance(args, LabelledPermutation)\<close>; the class
      hierarchy is in \<^verbatim>\<open>labelled.py\<close>. Every concrete class is an instance of exactly one
      of \<^verbatim>\<open>LabelledPermutation\<close> and \<^verbatim>\<open>ReducedPermutation\<close>.\<close>
  "is_LabelledPermutation c =
     (c = LabelledPermutationIET \<or> c = FlippedLabelledPermutationIET
      \<or> c = LabelledPermutationLI \<or> c = FlippedLabelledPermutationLI)"

definition is_ReducedPermutation :: "perm_class \<Rightarrow> bool" where
  \<comment> \<open>Modelled from the spec: \<^verbatim>\<open>isinstance(args, ReducedPermutation)\<close>, of \<^verbatim>\<open>reduced.py\<close>.\<close>
  "is_ReducedPermutation c =
     (c = ReducedPermutationIET \<or> c = FlippedReducedPermutationIET
      \<or> c = ReducedPermutationLI \<or> c = FlippedReducedPermutationLI)"

definition is_FlippedPermutation :: "perm_class \<Rightarrow> bool" where
  \<comment> \<open>Modelled from the spec: \<^verbatim>\<open>isinstance(permutation, FlippedPermutation)\<close>, of
      \<^verbatim>\<open>template.py\<close>: the argument carries flip structure.\<close>
  "is_FlippedPermutation c =
     (c = FlippedLabelledPermutationIET \<or> c = FlippedReducedPermutationIET
      \<or> c = FlippedLabelledPermutationLI \<or> c = FlippedReducedPermutationLI)"

definition is_LabelledPermutationIET :: "perm_class \<Rightarrow> bool" where
  \<comment> \<open>Modelled from the spec: \<^verbatim>\<open>isinstance(permutation, LabelledPermutationIET)\<close>.\<close>
  "is_LabelledPermutationIET c =
     (c = LabelledPermutationIET \<or> c = FlippedLabelledPermutationIET)"

definition list_of :: "perm_obj \<Rightarrow> pyval list \<times> pyval list" where
  \<comment> \<open>Modelled from the spec: the method \<^verbatim>\<open>.list()\<close> of a permutation object, which
      gives back its raw row pair.\<close>
  "list_of p = obj_intervals p"

definition copy :: "perm_obj \<Rightarrow> perm_obj" where
  \<comment> \<open>\<^verbatim>\<open>copy.copy\<close>: a new object with the same value\<close>
  "copy p = p"

text \<open>
  The keyword arguments \<^verbatim>\<open>**kargs\<close>. \<^verbatim>\<open>reduced\<close> is absent, a \<^verbatim>\<open>bool\<close>, or something
  else; \<^verbatim>\<open>flips\<close> is absent or an iterable, kept as the list \<^verbatim>\<open>list(kargs['flips'])\<close>;
  \<^verbatim>\<open>alphabet\<close> is absent (or \<^verbatim>\<open>None\<close>) or a value.
\<close>

datatype reduced_arg = NotGiven | Given bool | GivenOther

record kargs =
  kw_reduced :: reduced_arg
  kw_flips :: "pyval list option"
  kw_alphabet :: "pyval option"

text \<open>
  What a constructor returns: an object (built here, or a copy of the argument), the
  result of the argument's own method \<^verbatim>\<open>.reduced()\<close>, or the result of a call of one of
  the classes \<^verbatim>\<open>PermutationIET\<close>, \<^verbatim>\<open>PermutationLI\<close> imported from \<^verbatim>\<open>template.py\<close>, kept
  with the arguments of the call: the rows, \<^verbatim>\<open>reduced=\<close>, and \<^verbatim>\<open>flips=\<close> with
  \<^verbatim>\<open>alphabet=\<close> when they are passed.
\<close>

datatype template_class = PermutationIET | PermutationLI

datatype outcome =
    Returned perm_obj
  | ReducedOf perm_obj
  | TemplateCall template_class "pyval list \<times> pyval list" bool
      "(pyval list \<times> pyval option) option"

text \<open>
  The positional arguments: a single argument that is already a permutation object, or
  a tuple of values none of which is one.
\<close>

datatype factory_args = Existing perm_obj | Fresh "pyval list"

definition resolve_reduction :: "reduced_arg \<Rightarrow> bool option \<Rightarrow> error + bool option" where
  \<comment> \<open>the first statement of both constructors; \<open>dflt\<close> is the value taken when
      \<^verbatim>\<open>reduced\<close> is absent (\<^verbatim>\<open>None\<close>, or \<^verbatim>\<open>False\<close> the second time in
      \<^verbatim>\<open>GeneralizedPermutation\<close>)\<close>
  "resolve_reduction r dflt =
     (case r of
        NotGiven \<Rightarrow> Inr dflt
      | GivenOther \<Rightarrow> Inl (TypeError ''reduced must be of type boolean'')
      | Given b \<Rightarrow> Inr (Some b))"

definition resolve_flips :: "pyval list option \<Rightarrow> pyval list" where
  "resolve_flips f = (case f of None \<Rightarrow> [] | Some fl \<Rightarrow> fl)"

definition normalize_args :: "pyval list \<Rightarrow> error + (pyval list \<times> pyval list)" where
  \<comment> \<open>\<^verbatim>\<open>if len(args) == 1: args = args[0]\<close>, then \<^verbatim>\<open>a = _two_lists(args)\<close>\<close>
  "normalize_args args = two_lists (if length args = 1 then args ! 0 else PSeq args)"

section \<open>\<^verbatim>\<open>Permutation\<close>: the exchange constructor\<close>

definition convert ::
  "template_class \<Rightarrow> perm_obj \<Rightarrow> bool option \<Rightarrow> pyval list \<Rightarrow> pyval option \<Rightarrow> outcome" where
  \<comment> \<open>the branch \<^verbatim>\<open>if len(args) == 1\<close> for an argument that is a permutation object;
      the same text in both constructors, up to the template class called\<close>
  "convert tc p reduction flips alphabet =
     (if is_LabelledPermutation (obj_class p) then
        (if flips = [] then
           (if reduction = None \<or> reduction = Some False then Returned (copy p)
            else ReducedOf p)
         else
           (let reduced = (reduction = None \<or> reduction = Some False) in
            TemplateCall tc (list_of p) reduced (Some (flips, alphabet))))
      else
        (if flips = [] then
           (if reduction = None \<or> reduction = Some True then Returned (copy p)
            else TemplateCall tc (list_of p) True None)
         else
           (let reduced = (reduction = None \<or> reduction = Some True) in
            TemplateCall tc (list_of p) reduced (Some (flips, alphabet)))))"

definition build_exchange ::
  "pyval list \<times> pyval list \<Rightarrow> bool option \<Rightarrow> pyval list \<Rightarrow> pyval option \<Rightarrow> error + outcome" where
  \<comment> \<open>lines 400 to 420: the checks on the two rows and the choice of the class\<close>
  "build_exchange a reduction flips alphabet =
     (let l = fst a @ snd a; letters = remdups l in
      if list_ex (\<lambda>letter. letter \<notin> set letters) flips
      then Inl (ValueError ''flips contains not valid letters'')
      else if list_ex (\<lambda>letter. count_list (fst a) letter \<noteq> 1
                                  \<or> count_list (snd a) letter \<noteq> 1) letters
      then Inl (ValueError ''letters must appear once in each interval'')
      else if reduction = Some True then
        (if flips = [] then Inr (Returned (new_perm ReducedPermutationIET a alphabet []))
         else Inr (Returned (new_perm FlippedReducedPermutationIET a alphabet flips)))
      else
        (if flips = [] then Inr (Returned (new_perm LabelledPermutationIET a alphabet []))
         else Inr (Returned (new_perm FlippedLabelledPermutationIET a alphabet flips))))"

definition Permutation :: "factory_args \<Rightarrow> kargs \<Rightarrow> error + outcome" where
  "Permutation args k =
     (case resolve_reduction (kw_reduced k) None of
        Inl e \<Rightarrow> Inl e
      | Inr reduction \<Rightarrow>
          (let flips = resolve_flips (kw_flips k); alphabet = kw_alphabet k in
           case args of
             Existing p \<Rightarrow> Inr (convert PermutationIET p reduction flips alphabet)
           | Fresh xs \<Rightarrow>
               (case normalize_args xs of
                  Inl e \<Rightarrow> Inl e
                | Inr a \<Rightarrow> build_exchange a reduction flips alphabet)))"

section \<open>\<^verbatim>\<open>GeneralizedPermutation\<close>: the constructor of linear involutions\<close>

fun strip_single ::
  "pyval list \<Rightarrow> pyval list \<Rightarrow> pyval list \<Rightarrow> error + (pyval list \<times> pyval list)" where
  \<comment> \<open>the loop of lines 582 to 585 over the letters, on the copies \<^verbatim>\<open>b0\<close>, \<^verbatim>\<open>b1\<close>:
      \<^verbatim>\<open>del b[b.index(letter)]\<close> removes the first occurrence, and \<^verbatim>\<open>index\<close> raises
      \<^verbatim>\<open>ValueError\<close> on a letter that is not in the list\<close>
  "strip_single [] b0 b1 = Inr (b0, b1)"
| "strip_single (letter # letters) b0 b1 =
     (if count_list b0 letter = 1 then
        (if letter \<in> set b1
         then strip_single letters (remove1 letter b0) (remove1 letter b1)
         else Inl (ValueError ''letter is not in list''))
      else strip_single letters b0 b1)"

definition build_generalized ::
  "kargs \<Rightarrow> pyval list \<times> pyval list \<Rightarrow> bool option \<Rightarrow> pyval list \<Rightarrow> pyval option
   \<Rightarrow> error + outcome" where
  \<comment> \<open>lines 568 to 602; \<open>k\<close> is \<^verbatim>\<open>kargs\<close>, passed on by \<^verbatim>\<open>Permutation(a,**kargs)\<close>\<close>
  "build_generalized k a reduction flips alphabet =
     (let l = fst a @ snd a; letters = remdups l in
      if list_ex (\<lambda>letter. letter \<notin> set letters) flips
      then Inl (TypeError ''The flip list is not valid'')
      else if list_ex (\<lambda>letter. count_list l letter \<noteq> 2) letters
      then Inl (ValueError ''Letters must reappear twice'')
      else
        (case strip_single letters (fst a) (snd a) of
           Inl e \<Rightarrow> Inl e
         | Inr (b0, b1) \<Rightarrow>
             if b0 = [] \<and> b1 = []
             then Permutation (Fresh [PSeq [PSeq (fst a), PSeq (snd a)]]) k
             else if b0 = [] \<or> b1 = []
             then Inl (ValueError ''There is no admissible length'')
             else if reduction = Some True then
               (if flips = [] then Inr (Returned (new_perm ReducedPermutationLI a alphabet []))
                else Inr (Returned (new_perm FlippedReducedPermutationLI a alphabet flips)))
             else
               (if flips = [] then Inr (Returned (new_perm LabelledPermutationLI a alphabet []))
                else Inr (Returned (new_perm FlippedLabelledPermutationLI a alphabet flips)))))"

definition GeneralizedPermutation :: "factory_args \<Rightarrow> kargs \<Rightarrow> error + outcome" where
  "GeneralizedPermutation args k =
     (case resolve_reduction (kw_reduced k) None of
        Inl e \<Rightarrow> Inl e
      | Inr reduction0 \<Rightarrow>
          (let flips = resolve_flips (kw_flips k); alphabet = kw_alphabet k in
           case args of
             Existing p \<Rightarrow> Inr (convert PermutationLI p reduction0 flips alphabet)
           | Fresh xs \<Rightarrow>
               (case normalize_args xs of
                  Inl e \<Rightarrow> Inl e
                | Inr a \<Rightarrow>
                    (case resolve_reduction (kw_reduced k) (Some False) of
                       Inl e \<Rightarrow> Inl e
                     | Inr reduction \<Rightarrow> build_generalized k a reduction flips alphabet))))"

section \<open>\<^verbatim>\<open>IntervalExchangeTransformation\<close>\<close>

text \<open>
  The permutation argument is a permutation object or any other value. The lengths are
  a \<^verbatim>\<open>dict\<close> (its items, in iteration order) or another finite sequence; their entries
  are of a type \<open>'v\<close> left open. What the function takes from outside this file is a
  parameter: \<^verbatim>\<open>float(x)\<close>, which returns a float or raises an exception of any kind,
  \<^verbatim>\<open>repr(x)\<close>, the integer \<^verbatim>\<open>0\<close> as an entry, \<^verbatim>\<open>len(p)\<close>, \<^verbatim>\<open>p._alphabet.rank(letter)\<close>, and
  the object that a call of a template class or of \<^verbatim>\<open>.reduced()\<close> gives.

  A Python float is a finite number, an infinity or \<^verbatim>\<open>nan\<close>. The comparison \<^verbatim>\<open>y <= 0\<close> is
  false for \<^verbatim>\<open>nan\<close>, as every comparison with \<^verbatim>\<open>nan\<close> is; so is \<^verbatim>\<open>0 < y\<close>. (The rounding
  of a finite float plays no part in these comparisons: a finite float is kept as the
  real number it stands for.)
\<close>

datatype pyfloat = Finite real | PosInf | NegInf | NaN

fun float_le_zero :: "pyfloat \<Rightarrow> bool" where
  \<comment> \<open>\<^verbatim>\<open>y <= 0\<close>\<close>
  "float_le_zero (Finite r) = (r \<le> 0)"
| "float_le_zero PosInf = False"
| "float_le_zero NegInf = True"
| "float_le_zero NaN = False"

fun float_positive :: "pyfloat \<Rightarrow> bool" where
  \<comment> \<open>\<^verbatim>\<open>0 < y\<close>: the float is strictly positive\<close>
  "float_positive (Finite r) = (0 < r)"
| "float_positive PosInf = True"
| "float_positive NegInf = False"
| "float_positive NaN = False"

definition is_ValueError :: "error \<Rightarrow> bool" where
  \<comment> \<open>the exception is caught by \<^verbatim>\<open>except ValueError\<close>\<close>
  "is_ValueError e = (case e of ValueError m \<Rightarrow> True | _ \<Rightarrow> False)"

datatype perm_arg = AnObject perm_obj | AValue pyval

datatype 'v lengths_arg = LengthsDict "(pyval \<times> 'v) list" | LengthsSeq "'v list"

record 'v externals =
  float_py :: "'v \<Rightarrow> error + pyfloat"
  repr_py :: "'v \<Rightarrow> string"
  zero_py :: 'v
  len_py :: "perm_obj \<Rightarrow> nat"
  rank_py :: "perm_obj \<Rightarrow> pyval \<Rightarrow> error + int"
  call_external :: "outcome \<Rightarrow> error + perm_obj"

definition result_object :: "'v externals \<Rightarrow> outcome \<Rightarrow> error + perm_obj" where
  "result_object ext r = (case r of Returned q \<Rightarrow> Inr q | _ \<Rightarrow> call_external ext r)"

definition reduced_False :: kargs where
  \<comment> \<open>the keyword arguments of the call \<^verbatim>\<open>Permutation(permutation,reduced=False)\<close>\<close>
  "reduced_False = \<lparr>kw_reduced = Given False, kw_flips = None, kw_alphabet = None\<rparr>"

definition resolve_permutation :: "'v externals \<Rightarrow> perm_arg \<Rightarrow> error + perm_obj" where
  \<comment> \<open>lines 906 to 911\<close>
  "resolve_permutation ext permutation =
     (case permutation of
        AnObject q \<Rightarrow>
          if is_FlippedPermutation (obj_class q)
          then Inl (TypeError ''flips are not yet implemented'')
          else if is_LabelledPermutationIET (obj_class q) then Inr q
          else (case Permutation (Existing q) reduced_False of
                  Inl e \<Rightarrow> Inl e
                | Inr r \<Rightarrow> result_object ext r)
      | AValue v \<Rightarrow>
          (case Permutation (Fresh [v]) reduced_False of
             Inl e \<Rightarrow> Inl e
           | Inr r \<Rightarrow> result_object ext r))"

definition set_item :: "'v list \<Rightarrow> int \<Rightarrow> 'v \<Rightarrow> error + 'v list" where
  \<comment> \<open>\<^verbatim>\<open>l[i] = v\<close>: a negative index counts from the end\<close>
  "set_item l i v =
     (let n = int (length l); j = (if i < 0 then n + i else i)
      in if 0 \<le> j \<and> j < n then Inr (l[nat j := v])
         else Inl (IndexError ''list assignment index out of range''))"

fun fill_lengths ::
  "'v externals \<Rightarrow> perm_obj \<Rightarrow> (pyval \<times> 'v) list \<Rightarrow> 'v list \<Rightarrow> error + 'v list" where
  \<comment> \<open>the loop \<^verbatim>\<open>for letter in lengths: l[alphabet.rank(letter)] = lengths[letter]\<close>\<close>
  "fill_lengths ext p [] l = Inr l"
| "fill_lengths ext p ((letter, v) # rest) l =
     (case rank_py ext p letter of
        Inl e \<Rightarrow> Inl e
      | Inr i \<Rightarrow>
          (case set_item l i v of
             Inl e \<Rightarrow> Inl e
           | Inr l' \<Rightarrow> fill_lengths ext p rest l'))"

definition resolve_lengths ::
  "'v externals \<Rightarrow> perm_obj \<Rightarrow> 'v lengths_arg \<Rightarrow> error + 'v list" where
  \<comment> \<open>lines 914 to 920\<close>
  "resolve_lengths ext p lengths =
     (case lengths of
        LengthsDict d \<Rightarrow> fill_lengths ext p d (replicate (len_py ext p) (zero_py ext))
      | LengthsSeq xs \<Rightarrow> Inr xs)"

fun check_entries :: "'v externals \<Rightarrow> 'v list \<Rightarrow> error option" where
  \<comment> \<open>the loop of lines 925 to 932; only a \<^verbatim>\<open>ValueError\<close> of \<^verbatim>\<open>float\<close> is caught, any
      other exception of \<^verbatim>\<open>float\<close> goes on as it is\<close>
  "check_entries ext [] = None"
| "check_entries ext (x # xs) =
     (case float_py ext x of
        Inl (ValueError m) \<Rightarrow>
          Some (TypeError (''unable to convert '' @ repr_py ext x @ '' to a float''))
      | Inl e \<Rightarrow> Some e
      | Inr y \<Rightarrow>
          if float_le_zero y then Some (ValueError ''lengths must be positive'')
          else check_entries ext xs)"

definition IntervalExchangeTransformation ::
  "'v externals \<Rightarrow> perm_arg \<Rightarrow> 'v lengths_arg \<Rightarrow> error + (perm_obj \<times> 'v list)" where
  \<comment> \<open>the result \<open>Inr (p, l)\<close> is the call \<^verbatim>\<open>_IET(p, l)\<close> of the class of \<^verbatim>\<open>iet.py\<close>\<close>
  "IntervalExchangeTransformation ext permutation lengths =
     (case resolve_permutation ext permutation of
        Inl e \<Rightarrow> Inl e
      | Inr p \<Rightarrow>
          (case resolve_lengths ext p lengths of
             Inl e \<Rightarrow> Inl e
           | Inr l \<Rightarrow>
               if length l \<noteq> len_py ext p then Inl (ValueError ''bad number of lengths'')
               else (case check_entries ext l of
                       Some e \<Rightarrow> Inl e
                     | None \<Rightarrow> Inr (p, l))))"

text \<open>
  An instance of the parameters, for evaluating the function on concrete inputs. An
  entry is a float, an integer, a string that is not the text of a number, or \<^verbatim>\<open>None\<close>.
  \<^verbatim>\<open>float\<close> of a float is the float itself; of an integer it is the nearest float, and
  \<^verbatim>\<open>OverflowError\<close> from \<open>2^1024 - 2^970\<close> on (the integers that round to \<open>2^1024\<close>); of
  such a string it raises \<^verbatim>\<open>ValueError\<close>; of \<^verbatim>\<open>None\<close> it raises \<^verbatim>\<open>TypeError\<close>.
  \<^verbatim>\<open>len(p)\<close> is the length of the top row.
\<close>

datatype entry = EFloat pyfloat | EInt int | EWord string | ENone

fun float_entry :: "entry \<Rightarrow> error + pyfloat" where
  "float_entry (EFloat y) = Inr y"
| "float_entry (EInt i) =
     (if \<bar>i\<bar> < 2 ^ 1024 - 2 ^ 970 then Inr (Finite (real_of_int i))
      else Inl (OverflowError ''long int too large to convert to float''))"
| "float_entry (EWord s) = Inl (ValueError (''could not convert string to float: '' @ s))"
| "float_entry ENone = Inl (TypeError ''float() argument must be a string or a number'')"

fun repr_entry :: "entry \<Rightarrow> string" where
  \<comment> \<open>\<^verbatim>\<open>repr\<close> is only called on an entry whose \<^verbatim>\<open>float\<close> raised \<^verbatim>\<open>ValueError\<close>: a
      string (one without quotes or escapes, here)\<close>
  "repr_entry (EWord s) = [CHR 0x27] @ s @ [CHR 0x27]"
| "repr_entry ENone = ''None''"
| "repr_entry (EInt i) = ''<int>''"
| "repr_entry (EFloat y) = ''<float>''"

definition example_externals :: "entry externals" where
  "example_externals =
     \<lparr>float_py = float_entry,
      repr_py = repr_entry,
      zero_py = EInt 0,
      len_py = (\<lambda>p. length (fst (obj_intervals p))),
      rank_py = (\<lambda>p letter. Inl (ValueError ''letter not in alphabet'')),
      call_external = (\<lambda>r. Inl (TypeError ''unexpected keyword argument''))\<rparr>"

section \<open>Properties of the string operations\<close>

lemma length_split_on_from:
  "length (split_on_from sep w s) = Suc (count_list s sep)"
  by (induction s arbitrary: w) auto

lemma length_split_on: "length (split_on sep s) = Suc (count_list s sep)"
  by (simp add: split_on_def length_split_on_from)

lemma split_on_from_no_sep:
  "sep \<notin> set s \<Longrightarrow> split_on_from sep w s = [w @ s]"
  by (induction s arbitrary: w) auto

lemma split_on_from_first:
  "sep \<in> set s \<Longrightarrow>
   split_on_from sep w s =
     (w @ takeWhile (\<lambda>c. c \<noteq> sep) s) # split_on_from sep [] (tl (dropWhile (\<lambda>c. c \<noteq> sep) s))"
  by (induction s arbitrary: w) auto

lemma count_list_tl_dropWhile:
  "sep \<in> set s \<Longrightarrow> count_list (tl (dropWhile (\<lambda>c. c \<noteq> sep) s)) sep = count_list s sep - 1"
  by (induction s) auto

lemma split_on_two_lines:
  assumes "count_list s sep = 1"
  shows "split_on sep s = [takeWhile (\<lambda>c. c \<noteq> sep) s, tl (dropWhile (\<lambda>c. c \<noteq> sep) s)]"
proof -
  from assms have mem: "sep \<in> set s"
    by (metis count_list_0_iff zero_neq_one)
  let ?rest = "tl (dropWhile (\<lambda>c. c \<noteq> sep) s)"
  from mem assms have "count_list ?rest sep = 0"
    by (simp add: count_list_tl_dropWhile)
  then have "sep \<notin> set ?rest"
    by (simp add: count_list_0_iff)
  then have "split_on_from sep [] ?rest = [?rest]"
    by (simp add: split_on_from_no_sep)
  with mem show ?thesis
    by (simp add: split_on_def split_on_from_first)
qed

lemma split_on_join:
  "concat (map (\<lambda>l. sep # l) (split_on_from sep w s)) = sep # w @ s"
  by (induction s arbitrary: w) auto

lemma split_ws_from_tokens:
  "\<forall>c \<in> set w. \<not> is_space c \<Longrightarrow>
   \<forall>t \<in> set (split_ws_from w s). t \<noteq> [] \<and> (\<forall>c \<in> set t. \<not> is_space c)"
proof (induction s arbitrary: w)
  case Nil
  then show ?case by simp
next
  case (Cons c cs)
  show ?case
  proof (cases "is_space c")
    case True
    with Cons.prems Cons.IH [of "[]"] show ?thesis by simp
  next
    case False
    with Cons.prems have "\<forall>d \<in> set (w @ [c]). \<not> is_space d" by simp
    from Cons.IH [OF this] False show ?thesis by simp
  qed
qed

lemma split_ws_tokens:
  "t \<in> set (split_ws s) \<Longrightarrow> t \<noteq> [] \<and> (\<forall>c \<in> set t. \<not> is_space c)"
  using split_ws_from_tokens [of "[]" s] by (simp add: split_ws_def)

lemma split_ws_from_concat:
  "concat (split_ws_from w s) = w @ filter (\<lambda>c. \<not> is_space c) s"
  by (induction s arbitrary: w) auto

lemma split_ws_concat: "concat (split_ws s) = filter (\<lambda>c. \<not> is_space c) s"
  by (simp add: split_ws_def split_ws_from_concat)


section \<open>Properties of the residual rows\<close>

lemma count_list_remove1:
  "count_list (remove1 x xs) y = (if x = y \<and> x \<in> set xs then count_list xs y - 1 else count_list xs y)"
  by (induction xs) auto

lemma strip_single_counts:
  "distinct letters \<Longrightarrow> strip_single letters b0 b1 = Inr (c0, c1) \<Longrightarrow>
   count_list c0 y = (if y \<in> set letters \<and> count_list b0 y = 1 then 0 else count_list b0 y) \<and>
   count_list c1 y = (if y \<in> set letters \<and> count_list b0 y = 1 then count_list b1 y - 1
                      else count_list b1 y)"
proof (induction letters arbitrary: b0 b1)
  case Nil
  then show ?case by simp
next
  case (Cons letter letters)
  from Cons.prems(1) have notin: "letter \<notin> set letters" and dist: "distinct letters"
    by simp_all
  show ?case
  proof (cases "count_list b0 letter = 1")
    case True
    with Cons.prems(2) have mem: "letter \<in> set b1"
      by (simp split: if_splits)
    from True have mem0: "letter \<in> set b0"
      by (metis count_list_0_iff zero_neq_one)
    from True mem Cons.prems(2)
    have step: "strip_single letters (remove1 letter b0) (remove1 letter b1) = Inr (c0, c1)"
      by simp
    from Cons.IH [OF dist step] notin True mem mem0 show ?thesis
      by (cases "y = letter") (simp_all add: count_list_remove1)
  next
    case False
    with Cons.prems(2) have step: "strip_single letters b0 b1 = Inr (c0, c1)"
      by simp
    from Cons.IH [OF dist step] notin False show ?thesis
      by (cases "y = letter") simp_all
  qed
qed

lemma strip_single_total:
  "distinct letters \<Longrightarrow> \<forall>x \<in> set letters. count_list b0 x = 1 \<longrightarrow> x \<in> set b1 \<Longrightarrow>
   \<exists>c0 c1. strip_single letters b0 b1 = Inr (c0, c1)"
proof (induction letters arbitrary: b0 b1)
  case Nil
  then show ?case by simp
next
  case (Cons letter letters)
  from Cons.prems(1) have notin: "letter \<notin> set letters" and dist: "distinct letters"
    by simp_all
  show ?case
  proof (cases "count_list b0 letter = 1")
    case True
    with Cons.prems(2) have mem: "letter \<in> set b1" by simp
    have "\<forall>x \<in> set letters. count_list (remove1 letter b0) x = 1 \<longrightarrow> x \<in> set (remove1 letter b1)"
    proof (intro ballI impI)
      fix x assume x: "x \<in> set letters" and c: "count_list (remove1 letter b0) x = 1"
      from x notin have ne: "x \<noteq> letter" by auto
      with c have "count_list b0 x = 1" by (simp add: count_list_remove1)
      with Cons.prems(2) x have "x \<in> set b1" by simp
      with ne show "x \<in> set (remove1 letter b1)" by simp
    qed
    from Cons.IH [OF dist this] True mem show ?thesis by simp
  next
    case False
    from Cons.prems(2) have "\<forall>x \<in> set letters. count_list b0 x = 1 \<longrightarrow> x \<in> set b1" by simp
    from Cons.IH [OF dist this] False show ?thesis by simp
  qed
qed

lemma twice_total_member:
  assumes "count_list (a0 @ a1) x = 2" "count_list a0 x = 1"
  shows "x \<in> set a1"
proof -
  from assms have "count_list a1 x = 1" by simp
  then show ?thesis by (metis count_list_0_iff zero_neq_one)
qed

lemma residual_total:
  assumes "\<forall>x \<in> set (a0 @ a1). count_list (a0 @ a1) x = 2"
  shows "\<exists>b0 b1. strip_single (remdups (a0 @ a1)) a0 a1 = Inr (b0, b1)"
proof (rule strip_single_total)
  show "distinct (remdups (a0 @ a1))" by simp
  show "\<forall>x \<in> set (remdups (a0 @ a1)). count_list a0 x = 1 \<longrightarrow> x \<in> set a1"
  proof (intro ballI impI)
    fix x assume x: "x \<in> set (remdups (a0 @ a1))" and c: "count_list a0 x = 1"
    from x have "x \<in> set (a0 @ a1)" by simp
    with assms have "count_list (a0 @ a1) x = 2" by blast
    then show "x \<in> set a1" using c by (rule twice_total_member)
  qed
qed

lemma residual_empty_once:
  assumes twice: "\<forall>x \<in> set (a0 @ a1). count_list (a0 @ a1) x = 2"
    and res: "strip_single (remdups (a0 @ a1)) a0 a1 = Inr ([], [])"
    and x: "x \<in> set (a0 @ a1)"
  shows "count_list a0 x = 1 \<and> count_list a1 x = 1"
proof -
  have dist: "distinct (remdups (a0 @ a1))" by simp
  from x have xl: "x \<in> set (remdups (a0 @ a1))" by simp
  from twice x have sum: "count_list a0 x + count_list a1 x = 2" by simp
  from strip_single_counts [OF dist res, of x] xl
  have c0: "count_list a0 x \<noteq> 1 \<longrightarrow> count_list a0 x = 0"
    and c1: "count_list a0 x \<noteq> 1 \<longrightarrow> count_list a1 x = 0"
    by (auto split: if_splits)
  from c0 c1 sum have "count_list a0 x = 1" by (cases "count_list a0 x = 1") auto
  with sum show ?thesis by simp
qed

text \<open>
  A Python \<^verbatim>\<open>set\<close> is iterated in an order the language does not fix; the definitions
  above take the letters in the order \<open>remdups\<close> gives. Once every letter occurs twice in
  all, the residual rows are the same for every enumeration of the letters: the two rows
  without the letters that occur once in the top row.
\<close>

lemma remove1_single:
  "count_list xs x = 1 \<Longrightarrow> remove1 x xs = filter (\<lambda>y. y \<noteq> x) xs"
proof (induction xs)
  case Nil
  then show ?case by simp
next
  case (Cons a xs)
  show ?case
  proof (cases "a = x")
    case True
    with Cons.prems have "count_list xs x = 0" by simp
    then have "x \<notin> set xs" by (simp add: count_list_0_iff)
    then have "filter (\<lambda>y. y \<noteq> x) xs = xs" by (auto simp: filter_id_conv)
    with True show ?thesis by simp
  next
    case False
    with Cons.prems have "count_list xs x = 1" by simp
    from Cons.IH [OF this] False show ?thesis by auto
  qed
qed

lemma count_list_filter_neq:
  "count_list (filter (\<lambda>y. y \<noteq> x) xs) z = (if z = x then 0 else count_list xs z)"
  by (induction xs) auto

lemma strip_single_filter:
  assumes "distinct letters"
    and "\<forall>x \<in> set letters. count_list b0 x = 1 \<longrightarrow> count_list b1 x = 1"
  shows "strip_single letters b0 b1 =
         Inr (filter (\<lambda>y. \<not> (y \<in> set letters \<and> count_list b0 y = 1)) b0,
              filter (\<lambda>y. \<not> (y \<in> set letters \<and> count_list b0 y = 1)) b1)"
  using assms
proof (induction letters arbitrary: b0 b1)
  case Nil
  then show ?case by simp
next
  case (Cons letter letters)
  from Cons.prems(1) have notin: "letter \<notin> set letters" and dist: "distinct letters"
    by simp_all
  show ?case
  proof (cases "count_list b0 letter = 1")
    case True
    with Cons.prems(2) have c1: "count_list b1 letter = 1" by simp
    then have mem: "letter \<in> set b1"
      by (metis count_list_0_iff zero_neq_one)
    let ?b0 = "filter (\<lambda>y. y \<noteq> letter) b0" and ?b1 = "filter (\<lambda>y. y \<noteq> letter) b1"
    from True have r0: "remove1 letter b0 = ?b0" by (rule remove1_single)
    from c1 have r1: "remove1 letter b1 = ?b1" by (rule remove1_single)
    have inv: "\<forall>x \<in> set letters. count_list ?b0 x = 1 \<longrightarrow> count_list ?b1 x = 1"
      using Cons.prems(2) notin by (auto simp: count_list_filter_neq)
    have step: "strip_single (letter # letters) b0 b1 = strip_single letters ?b0 ?b1"
      using True mem r0 r1 by simp
    have f0: "filter (\<lambda>y. \<not> (y \<in> set letters \<and> count_list ?b0 y = 1)) ?b0
              = filter (\<lambda>y. \<not> (y \<in> set (letter # letters) \<and> count_list b0 y = 1)) b0"
      unfolding filter_filter
      by (rule filter_cong) (auto simp: count_list_filter_neq True)
    have f1: "filter (\<lambda>y. \<not> (y \<in> set letters \<and> count_list ?b0 y = 1)) ?b1
              = filter (\<lambda>y. \<not> (y \<in> set (letter # letters) \<and> count_list b0 y = 1)) b1"
      unfolding filter_filter
      by (rule filter_cong) (auto simp: count_list_filter_neq True)
    show ?thesis
      unfolding step Cons.IH [OF dist inv] f0 f1 ..
  next
    case False
    from Cons.prems(2) have inv: "\<forall>x \<in> set letters. count_list b0 x = 1 \<longrightarrow> count_list b1 x = 1"
      by simp
    have step: "strip_single (letter # letters) b0 b1 = strip_single letters b0 b1"
      using False by simp
    have f: "filter (\<lambda>y. \<not> (y \<in> set letters \<and> count_list b0 y = 1)) b
              = filter (\<lambda>y. \<not> (y \<in> set (letter # letters) \<and> count_list b0 y = 1)) b" for b
      by (rule filter_cong) (use False in auto)
    show ?thesis
      unfolding step Cons.IH [OF dist inv] f [of b0] f [of b1] ..
  qed
qed

lemma residual_rows_any_order:
  assumes twice: "\<forall>x \<in> set (a0 @ a1). count_list (a0 @ a1) x = 2"
    and dist: "distinct letters" and same: "set letters = set (a0 @ a1)"
  shows "strip_single letters a0 a1 =
         Inr (filter (\<lambda>y. count_list a0 y \<noteq> 1) a0, filter (\<lambda>y. count_list a0 y \<noteq> 1) a1)"
proof -
  have inv: "\<forall>x \<in> set letters. count_list a0 x = 1 \<longrightarrow> count_list a1 x = 1"
  proof (intro ballI impI)
    fix x assume "x \<in> set letters" and c: "count_list a0 x = 1"
    with same have "x \<in> set (a0 @ a1)" by simp
    with twice have "count_list (a0 @ a1) x = 2" by blast
    with c show "count_list a1 x = 1" by simp
  qed
  have f: "filter (\<lambda>y. \<not> (y \<in> set letters \<and> count_list a0 y = 1)) b
           = filter (\<lambda>y. count_list a0 y \<noteq> 1) b" if "set b \<subseteq> set (a0 @ a1)" for b
    by (rule filter_cong) (use that same in auto)
  have f0: "filter (\<lambda>y. \<not> (y \<in> set letters \<and> count_list a0 y = 1)) a0
            = filter (\<lambda>y. count_list a0 y \<noteq> 1) a0"
    by (rule f) simp
  have f1: "filter (\<lambda>y. \<not> (y \<in> set letters \<and> count_list a0 y = 1)) a1
            = filter (\<lambda>y. count_list a0 y \<noteq> 1) a1"
    by (rule f) simp
  show ?thesis
    unfolding strip_single_filter [OF dist inv] f0 f1 ..
qed

section \<open>The fresh-build path of the two constructors\<close>

lemma Permutation_Fresh:
  assumes "normalize_args xs = Inr a" and "kw_reduced k \<noteq> GivenOther"
  shows "Permutation (Fresh xs) k =
         build_exchange a (case kw_reduced k of Given b \<Rightarrow> Some b | _ \<Rightarrow> None)
           (resolve_flips (kw_flips k)) (kw_alphabet k)"
  using assms by (cases "kw_reduced k") (simp_all add: Permutation_def resolve_reduction_def)

lemma GeneralizedPermutation_Fresh:
  assumes "normalize_args xs = Inr a" and "kw_reduced k \<noteq> GivenOther"
  shows "GeneralizedPermutation (Fresh xs) k =
         build_generalized k a (case kw_reduced k of Given b \<Rightarrow> Some b | _ \<Rightarrow> Some False)
           (resolve_flips (kw_flips k)) (kw_alphabet k)"
  using assms
  by (cases "kw_reduced k") (simp_all add: GeneralizedPermutation_def resolve_reduction_def)

lemma build_exchange_bad_flips:
  assumes "letter \<in> set flips" and "letter \<notin> set (fst a @ snd a)"
  shows "build_exchange a reduction flips alphabet =
         Inl (ValueError ''flips contains not valid letters'')"
proof -
  from assms have "list_ex (\<lambda>x. x \<notin> set (remdups (fst a @ snd a))) flips"
    unfolding list_ex_iff by auto
  then show ?thesis by (simp add: build_exchange_def Let_def)
qed

lemma build_generalized_bad_flips:
  assumes "letter \<in> set flips" and "letter \<notin> set (fst a @ snd a)"
  shows "build_generalized k a reduction flips alphabet =
         Inl (TypeError ''The flip list is not valid'')"
proof -
  from assms have "list_ex (\<lambda>x. x \<notin> set (remdups (fst a @ snd a))) flips"
    unfolding list_ex_iff by auto
  then show ?thesis by (simp add: build_generalized_def Let_def)
qed

lemma flips_pass:
  "set flips \<subseteq> set (fst a @ snd a) \<Longrightarrow>
   \<not> list_ex (\<lambda>x. x \<notin> set (remdups (fst a @ snd a))) flips"
  unfolding list_ex_iff by auto

lemma once_check_iff:
  "list_ex (\<lambda>letter. count_list a0 letter \<noteq> 1 \<or> count_list a1 letter \<noteq> 1) (remdups (a0 @ a1))
   \<longleftrightarrow> (\<exists>letter \<in> set (a0 @ a1). count_list a0 letter \<noteq> 1 \<or> count_list a1 letter \<noteq> 1)"
  unfolding list_ex_iff by simp

lemma twice_check_iff:
  "list_ex (\<lambda>letter. count_list l letter \<noteq> 2) (remdups l)
   \<longleftrightarrow> (\<exists>letter \<in> set l. count_list l letter \<noteq> 2)"
  unfolding list_ex_iff by simp

lemma build_exchange_checked:
  assumes "set flips \<subseteq> set (fst a @ snd a)"
  shows "build_exchange a reduction flips alphabet =
     (if \<exists>letter \<in> set (fst a @ snd a).
           count_list (fst a) letter \<noteq> 1 \<or> count_list (snd a) letter \<noteq> 1
      then Inl (ValueError ''letters must appear once in each interval'')
      else Inr (Returned (new_perm
             (if reduction = Some True
              then (if flips = [] then ReducedPermutationIET else FlippedReducedPermutationIET)
              else (if flips = [] then LabelledPermutationIET else FlippedLabelledPermutationIET))
             a alphabet flips)))"
proof -
  have f: "\<not> list_ex (\<lambda>letter. letter \<notin> set (remdups (fst a @ snd a))) flips"
    using flips_pass [OF assms] .
  show ?thesis
    unfolding build_exchange_def Let_def once_check_iff if_not_P [OF f]
    by simp
qed

lemma build_generalized_not_twice:
  assumes "set flips \<subseteq> set (fst a @ snd a)"
    and "\<exists>letter \<in> set (fst a @ snd a). count_list (fst a @ snd a) letter \<noteq> 2"
  shows "build_generalized k a reduction flips alphabet =
         Inl (ValueError ''Letters must reappear twice'')"
proof -
  have f: "\<not> list_ex (\<lambda>letter. letter \<notin> set (remdups (fst a @ snd a))) flips"
    using flips_pass [OF assms(1)] .
  have t: "list_ex (\<lambda>letter. count_list (fst a @ snd a) letter \<noteq> 2) (remdups (fst a @ snd a))"
    using assms(2) by (simp only: twice_check_iff)
  show ?thesis
    unfolding build_generalized_def Let_def if_not_P [OF f] if_P [OF t] ..
qed

lemma build_generalized_checked:
  assumes "set flips \<subseteq> set (fst a @ snd a)"
    and "\<forall>letter \<in> set (fst a @ snd a). count_list (fst a @ snd a) letter = 2"
    and "strip_single (remdups (fst a @ snd a)) (fst a) (snd a) = Inr (b0, b1)"
  shows "build_generalized k a reduction flips alphabet =
     (if b0 = [] \<and> b1 = [] then Permutation (Fresh [PSeq [PSeq (fst a), PSeq (snd a)]]) k
      else if b0 = [] \<or> b1 = [] then Inl (ValueError ''There is no admissible length'')
      else Inr (Returned (new_perm
             (if reduction = Some True
              then (if flips = [] then ReducedPermutationLI else FlippedReducedPermutationLI)
              else (if flips = [] then LabelledPermutationLI else FlippedLabelledPermutationLI))
             a alphabet flips)))"
proof -
  have f: "\<not> list_ex (\<lambda>letter. letter \<notin> set (remdups (fst a @ snd a))) flips"
    using flips_pass [OF assms(1)] .
  have t: "\<not> list_ex (\<lambda>letter. count_list (fst a @ snd a) letter \<noteq> 2) (remdups (fst a @ snd a))"
    using assms(2) by (simp only: twice_check_iff) blast
  show ?thesis
    unfolding build_generalized_def Let_def if_not_P [OF f] if_not_P [OF t] assms(3)
    by simp
qed

lemma normalize_rows: "normalize_args [PSeq [PSeq a0, PSeq a1]] = Inr (a0, a1)"
  by (simp add: normalize_args_def two_rows_def)

lemma delegation_value:
  assumes n: "normalize_args xs = Inr a" and r: "kw_reduced k \<noteq> GivenOther"
    and f: "set (resolve_flips (kw_flips k)) \<subseteq> set (fst a @ snd a)"
    and tw: "\<forall>letter \<in> set (fst a @ snd a). count_list (fst a @ snd a) letter = 2"
    and res: "strip_single (remdups (fst a @ snd a)) (fst a) (snd a) = Inr ([], [])"
  shows "GeneralizedPermutation (Fresh xs) k =
         Permutation (Fresh [PSeq [PSeq (fst a), PSeq (snd a)]]) k"
  unfolding GeneralizedPermutation_Fresh [OF n r] build_generalized_checked [OF f tw res]
  by simp

lemma Permutation_of_rows:
  assumes n: "normalize_args xs = Inr a" and r: "kw_reduced k \<noteq> GivenOther"
  shows "Permutation (Fresh [PSeq [PSeq (fst a), PSeq (snd a)]]) k = Permutation (Fresh xs) k"
proof -
  have "normalize_args [PSeq [PSeq (fst a), PSeq (snd a)]] = Inr a"
    by (simp add: normalize_rows)
  from Permutation_Fresh [OF this r] Permutation_Fresh [OF n r] show ?thesis by simp
qed

lemma reduced_not_labelled: "is_ReducedPermutation c \<longleftrightarrow> \<not> is_LabelledPermutation c"
  by (cases c) (simp_all add: is_ReducedPermutation_def is_LabelledPermutation_def)

lemma Permutation_Existing:
  assumes "kw_reduced k \<noteq> GivenOther"
  shows "Permutation (Existing p) k =
         Inr (convert PermutationIET p (case kw_reduced k of Given b \<Rightarrow> Some b | _ \<Rightarrow> None)
               (resolve_flips (kw_flips k)) (kw_alphabet k))"
  using assms by (cases "kw_reduced k") (simp_all add: Permutation_def resolve_reduction_def)

section \<open>Properties of the length checks\<close>

lemma set_item_length: "set_item l i v = Inr l' \<Longrightarrow> length l' = length l"
  by (auto simp: set_item_def Let_def split: if_splits)

lemma fill_lengths_length:
  "fill_lengths ext p d l = Inr l' \<Longrightarrow> length l' = length l"
proof (induction d arbitrary: l)
  case Nil
  then show ?case by simp
next
  case (Cons kv d)
  obtain letter v where kv: "kv = (letter, v)" by (cases kv)
  from Cons.prems kv obtain i l1 where "set_item l i v = Inr l1"
    and "fill_lengths ext p d l1 = Inr l'"
    by (auto split: sum.splits)
  with Cons.IH [of l1] set_item_length [of l i v l1] show ?case by simp
qed

lemma resolve_lengths_dict_length:
  "resolve_lengths ext p (LengthsDict d) = Inr l \<Longrightarrow> length l = len_py ext p"
  using fill_lengths_length [of ext p d "replicate (len_py ext p) (zero_py ext)" l]
  by (simp add: resolve_lengths_def)

lemma float_positive_not_le_zero: "float_positive y \<Longrightarrow> \<not> float_le_zero y"
  by (cases y) simp_all

lemma check_entries_None_iff:
  "check_entries ext l = None \<longleftrightarrow>
   (\<forall>x \<in> set l. \<exists>y. float_py ext x = Inr y \<and> \<not> float_le_zero y)"
  by (induction l) (auto split: sum.splits error.splits)

lemma check_entries_skip:
  "\<forall>z \<in> set pre. \<exists>y. float_py ext z = Inr y \<and> \<not> float_le_zero y \<Longrightarrow>
   check_entries ext (pre @ rest) = check_entries ext rest"
  by (induction pre) auto

lemma check_entries_other_exception:
  "float_py ext x = Inl e \<Longrightarrow> \<not> is_ValueError e \<Longrightarrow> check_entries ext (x # xs) = Some e"
  by (cases e) (simp_all add: is_ValueError_def)

lemma IntervalExchangeTransformation_resolved:
  assumes "resolve_permutation ext permutation = Inr p"
    and "resolve_lengths ext p lengths = Inr l"
  shows "IntervalExchangeTransformation ext permutation lengths =
     (if length l \<noteq> len_py ext p then Inl (ValueError ''bad number of lengths'')
      else (case check_entries ext l of Some e \<Rightarrow> Inl e | None \<Rightarrow> Inr (p, l)))"
  using assms by (simp add: IntervalExchangeTransformation_def)

lemma example_permutation:
  "resolve_permutation example_externals (AValue (PSeq [PStr ''a b'', PStr ''b a'']))
   = Inr (new_perm LabelledPermutationIET ([PStr ''a'', PStr ''b''], [PStr ''b'', PStr ''a'']) None [])"
  by (simp add: resolve_permutation_def reduced_False_def Permutation_def
      resolve_reduction_def resolve_flips_def normalize_args_def two_rows_def split_ws_def
      is_space_def build_exchange_def result_object_def)

section \<open>Normalising a string\<close>

text \<open>
  Claim C8. \<^verbatim>\<open>_two_lists\<close> on a single string: a string made of two lines \<open>l0\<close> and \<open>l1\<close>
  (one line separator between them, none inside them) gives the two rows of the
  whitespace-separated tokens of \<open>l0\<close> and of \<open>l1\<close>; a string whose number of line
  separators is not one (a line count other than two) raises
  \<^verbatim>\<open>ValueError("your chain must contain two lines")\<close>. The tokens are the maximal runs of
  non-whitespace characters (\<open>split_ws_tokens\<close>, \<open>split_ws_concat\<close>), and the number of
  lines is one more than the number of separators (\<open>length_split_on\<close>).
\<close>

theorem two_lists_of_string:
  "(newline \<notin> set l0 \<longrightarrow> newline \<notin> set l1 \<longrightarrow>
      two_lists (PStr (l0 @ newline # l1)) =
        Inr (map PStr (split_ws l0), map PStr (split_ws l1)))
   \<and> (count_list s newline \<noteq> 1 \<longrightarrow>
      two_lists (PStr s) = Inl (ValueError ''your chain must contain two lines''))"
proof (intro conjI impI)
  assume n0: "newline \<notin> set l0" and n1: "newline \<notin> set l1"
  let ?s = "l0 @ newline # l1"
  from n0 n1 have cnt: "count_list ?s newline = 1"
    by (simp add: count_list_0_iff)
  from n0 have tw: "takeWhile (\<lambda>c. c \<noteq> newline) ?s = l0"
    by (induction l0) auto
  from n0 have dw: "dropWhile (\<lambda>c. c \<noteq> newline) ?s = newline # l1"
    by (induction l0) auto
  from split_on_two_lines [OF cnt] tw dw
  have "split_on newline ?s = [l0, l1]" by simp
  then show "two_lists (PStr ?s) = Inr (map PStr (split_ws l0), map PStr (split_ws l1))"
    by (simp add: Let_def)
next
  assume "count_list s newline \<noteq> 1"
  then have "length (split_on newline s) \<noteq> 2"
    by (simp add: length_split_on)
  then show "two_lists (PStr s) = Inl (ValueError ''your chain must contain two lines'')"
    by (simp add: Let_def)
qed

theorem two_lists_of_string_witness:
  "two_lists (PStr (''a1 a2'' @ newline # ''b1 b2'')) =
     Inr ([PStr ''a1'', PStr ''a2''], [PStr ''b1'', PStr ''b2''])
   \<and> two_lists (PStr ''a b'') = Inl (ValueError ''your chain must contain two lines'')"
  using two_lists_of_string [of "''a1 a2''" "''b1 b2''" "''a b''"]
  by (simp add: newline_def split_ws_def is_space_def)

section \<open>Flips that are not letters\<close>

text \<open>
  Claim C9. On the fresh-build path (the \<^verbatim>\<open>reduced\<close> option is absent or a boolean and the
  arguments normalise to two rows), a flip that is not a letter of the two rows makes
  \<^verbatim>\<open>Permutation\<close> raise \<^verbatim>\<open>ValueError("flips contains not valid letters")\<close> and
  \<^verbatim>\<open>GeneralizedPermutation\<close> raise \<^verbatim>\<open>TypeError("The flip list is not valid")\<close>: the same
  violation, two different exceptions.
\<close>

theorem invalid_flips_two_errors:
  assumes "normalize_args xs = Inr a" and "kw_reduced k \<noteq> GivenOther"
    and "kw_flips k = Some flips" and "letter \<in> set flips"
    and "letter \<notin> set (fst a @ snd a)"
  shows "Permutation (Fresh xs) k = Inl (ValueError ''flips contains not valid letters'')
       \<and> GeneralizedPermutation (Fresh xs) k = Inl (TypeError ''The flip list is not valid'')"
proof -
  from assms(3) have fl: "resolve_flips (kw_flips k) = flips"
    by (simp add: resolve_flips_def)
  show ?thesis
    using assms(4,5)
    by (simp add: Permutation_Fresh [OF assms(1,2)] GeneralizedPermutation_Fresh [OF assms(1,2)]
        fl build_exchange_bad_flips build_generalized_bad_flips)
qed

theorem invalid_flips_two_errors_witness:
  "Permutation (Fresh [PStr ''a b c a'', PStr ''d c d b''])
     \<lparr>kw_reduced = NotGiven, kw_flips = Some [PStr ''e'', PStr ''b''], kw_alphabet = None\<rparr>
     = Inl (ValueError ''flips contains not valid letters'')
   \<and> GeneralizedPermutation (Fresh [PStr ''a b c a'', PStr ''d c d b''])
     \<lparr>kw_reduced = NotGiven, kw_flips = Some [PStr ''e'', PStr ''b''], kw_alphabet = None\<rparr>
     = Inl (TypeError ''The flip list is not valid'')"
proof -
  have n: "normalize_args [PStr ''a b c a'', PStr ''d c d b''] =
           Inr ([PStr ''a'', PStr ''b'', PStr ''c'', PStr ''a''],
                [PStr ''d'', PStr ''c'', PStr ''d'', PStr ''b''])"
    by (simp add: normalize_args_def two_rows_def split_ws_def is_space_def)
  show ?thesis
    using invalid_flips_two_errors [OF n,
        of "\<lparr>kw_reduced = NotGiven, kw_flips = Some [PStr ''e'', PStr ''b''], kw_alphabet = None\<rparr>"
           "[PStr ''e'', PStr ''b'']" "PStr ''e''"]
    by simp
qed

section \<open>Letters of an exchange permutation\<close>

text \<open>
  Claim C1, as amended. On the fresh-build path of \<^verbatim>\<open>Permutation\<close> (the \<^verbatim>\<open>reduced\<close>
  option is absent or a boolean, the arguments normalise to the rows \<open>a\<close>) and when
  every flip is a letter of the rows: if some letter does not occur once in the top row
  and once in the bottom row, the call raises
  \<^verbatim>\<open>ValueError("letters must appear once in each interval")\<close> and builds nothing; if
  every letter occurs once in each row, the call builds the class chosen by
  \<^verbatim>\<open>reduced\<close> and by whether there are flips, from the rows, the alphabet and the flips.
\<close>

theorem exchange_letters_once:
  assumes "normalize_args xs = Inr a" and "kw_reduced k \<noteq> GivenOther"
    and "set (resolve_flips (kw_flips k)) \<subseteq> set (fst a @ snd a)"
  shows "((\<exists>letter \<in> set (fst a @ snd a).
             count_list (fst a) letter \<noteq> 1 \<or> count_list (snd a) letter \<noteq> 1) \<longrightarrow>
          Permutation (Fresh xs) k = Inl (ValueError ''letters must appear once in each interval''))
       \<and> ((\<forall>letter \<in> set (fst a @ snd a).
             count_list (fst a) letter = 1 \<and> count_list (snd a) letter = 1) \<longrightarrow>
          Permutation (Fresh xs) k =
            Inr (Returned (new_perm
              (if kw_reduced k = Given True
               then (if resolve_flips (kw_flips k) = [] then ReducedPermutationIET
                     else FlippedReducedPermutationIET)
               else (if resolve_flips (kw_flips k) = [] then LabelledPermutationIET
                     else FlippedLabelledPermutationIET))
              a (kw_alphabet k) (resolve_flips (kw_flips k)))))"
proof -
  have red: "((case kw_reduced k of Given b \<Rightarrow> Some b | _ \<Rightarrow> None) = Some True)
             = (kw_reduced k = Given True)"
    by (cases "kw_reduced k") simp_all
  show ?thesis
    unfolding Permutation_Fresh [OF assms(1,2)] build_exchange_checked [OF assms(3)] red
    by auto
qed

text \<open>
  The claim as first stated has no condition on the flips. The flips are checked before
  the letters: with a flip \<^verbatim>\<open>z\<close> that is no letter, the rows \<^verbatim>\<open>a b c\<close> and \<^verbatim>\<open>c a a\<close> (where
  \<^verbatim>\<open>a\<close> occurs twice in the bottom row) raise the exception of the flips.
\<close>

theorem exchange_letters_once_counterexample:
  "normalize_args [PStr ''a b c'', PStr ''c a a''] =
     Inr ([PStr ''a'', PStr ''b'', PStr ''c''], [PStr ''c'', PStr ''a'', PStr ''a''])
   \<and> count_list [PStr ''c'', PStr ''a'', PStr ''a''] (PStr ''a'') \<noteq> 1
   \<and> Permutation (Fresh [PStr ''a b c'', PStr ''c a a''])
       \<lparr>kw_reduced = Given True, kw_flips = Some [PStr ''z''], kw_alphabet = None\<rparr>
     = Inl (ValueError ''flips contains not valid letters'')"
  by (simp add: Permutation_def resolve_reduction_def resolve_flips_def build_exchange_def
      normalize_args_def two_rows_def split_ws_def is_space_def)

text \<open>
  The amended statement on the inputs \<^verbatim>\<open>('a b c','c a a',reduced=True)\<close> and
  \<^verbatim>\<open>('a b c','c b a')\<close>.
\<close>

theorem exchange_letters_once_witness:
  "Permutation (Fresh [PStr ''a b c'', PStr ''c a a''])
       \<lparr>kw_reduced = Given True, kw_flips = None, kw_alphabet = None\<rparr>
     = Inl (ValueError ''letters must appear once in each interval'')
   \<and> Permutation (Fresh [PStr ''a b c'', PStr ''c b a''])
       \<lparr>kw_reduced = NotGiven, kw_flips = None, kw_alphabet = None\<rparr>
     = Inr (Returned (new_perm LabelledPermutationIET
         ([PStr ''a'', PStr ''b'', PStr ''c''], [PStr ''c'', PStr ''b'', PStr ''a'']) None []))"
proof -
  have n1: "normalize_args [PStr ''a b c'', PStr ''c a a''] =
     Inr ([PStr ''a'', PStr ''b'', PStr ''c''], [PStr ''c'', PStr ''a'', PStr ''a''])"
    by (simp add: normalize_args_def two_rows_def split_ws_def is_space_def)
  have n2: "normalize_args [PStr ''a b c'', PStr ''c b a''] =
     Inr ([PStr ''a'', PStr ''b'', PStr ''c''], [PStr ''c'', PStr ''b'', PStr ''a''])"
    by (simp add: normalize_args_def two_rows_def split_ws_def is_space_def)
  have e1: "Permutation (Fresh [PStr ''a b c'', PStr ''c a a''])
       \<lparr>kw_reduced = Given True, kw_flips = None, kw_alphabet = None\<rparr>
     = Inl (ValueError ''letters must appear once in each interval'')"
    using exchange_letters_once [OF n1,
        of "\<lparr>kw_reduced = Given True, kw_flips = None, kw_alphabet = None\<rparr>"]
    by (simp add: resolve_flips_def)
  have e2: "Permutation (Fresh [PStr ''a b c'', PStr ''c b a''])
       \<lparr>kw_reduced = NotGiven, kw_flips = None, kw_alphabet = None\<rparr>
     = Inr (Returned (new_perm LabelledPermutationIET
         ([PStr ''a'', PStr ''b'', PStr ''c''], [PStr ''c'', PStr ''b'', PStr ''a'']) None []))"
    using exchange_letters_once [OF n2,
        of "\<lparr>kw_reduced = NotGiven, kw_flips = None, kw_alphabet = None\<rparr>"]
    by (simp add: resolve_flips_def)
  from e1 e2 show ?thesis by simp
qed

section \<open>Letters of a generalized permutation\<close>

text \<open>
  Claim C2, as amended. On the fresh-build path of \<^verbatim>\<open>GeneralizedPermutation\<close> and when
  every flip is a letter of the rows: if some letter does not occur exactly twice in the
  concatenation of the rows, the call raises \<^verbatim>\<open>ValueError("Letters must reappear twice")\<close>
  and builds nothing; the check covers every letter and comes before any class is
  chosen, so a call that returns had every letter twice.
\<close>

theorem generalized_letters_twice:
  assumes "normalize_args xs = Inr a" and "kw_reduced k \<noteq> GivenOther"
    and "set (resolve_flips (kw_flips k)) \<subseteq> set (fst a @ snd a)"
  shows "((\<exists>letter \<in> set (fst a @ snd a). count_list (fst a @ snd a) letter \<noteq> 2) \<longrightarrow>
          GeneralizedPermutation (Fresh xs) k = Inl (ValueError ''Letters must reappear twice''))
       \<and> ((\<exists>res. GeneralizedPermutation (Fresh xs) k = Inr res) \<longrightarrow>
          (\<forall>letter \<in> set (fst a @ snd a). count_list (fst a @ snd a) letter = 2))"
proof -
  have err: "GeneralizedPermutation (Fresh xs) k = Inl (ValueError ''Letters must reappear twice'')"
    if "\<exists>letter \<in> set (fst a @ snd a). count_list (fst a @ snd a) letter \<noteq> 2"
    unfolding GeneralizedPermutation_Fresh [OF assms(1,2)]
    using assms(3) that by (rule build_generalized_not_twice)
  show ?thesis
  proof (intro conjI impI)
    assume "\<exists>letter \<in> set (fst a @ snd a). count_list (fst a @ snd a) letter \<noteq> 2"
    then show "GeneralizedPermutation (Fresh xs) k = Inl (ValueError ''Letters must reappear twice'')"
      by (rule err)
  next
    assume ok: "\<exists>res. GeneralizedPermutation (Fresh xs) k = Inr res"
    show "\<forall>letter \<in> set (fst a @ snd a). count_list (fst a @ snd a) letter = 2"
    proof (rule ccontr)
      assume "\<not> (\<forall>letter \<in> set (fst a @ snd a). count_list (fst a @ snd a) letter = 2)"
      then have "\<exists>letter \<in> set (fst a @ snd a). count_list (fst a @ snd a) letter \<noteq> 2"
        by blast
      from err [OF this] ok show False by simp
    qed
  qed
qed

text \<open>
  The claim as first stated has no condition on the flips. The flips are checked first
  and raise a \<^verbatim>\<open>TypeError\<close>: with the flips \<^verbatim>\<open>e\<close>, \<^verbatim>\<open>b\<close> the rows \<^verbatim>\<open>a b c a\<close> and
  \<^verbatim>\<open>d c c b\<close> (where \<^verbatim>\<open>c\<close> occurs three times) raise the exception of the flips.
\<close>

theorem generalized_letters_twice_counterexample:
  "normalize_args [PStr ''a b c a'', PStr ''d c c b''] =
     Inr ([PStr ''a'', PStr ''b'', PStr ''c'', PStr ''a''],
          [PStr ''d'', PStr ''c'', PStr ''c'', PStr ''b''])
   \<and> count_list ([PStr ''a'', PStr ''b'', PStr ''c'', PStr ''a'']
                  @ [PStr ''d'', PStr ''c'', PStr ''c'', PStr ''b'']) (PStr ''c'') \<noteq> 2
   \<and> GeneralizedPermutation (Fresh [PStr ''a b c a'', PStr ''d c c b''])
       \<lparr>kw_reduced = NotGiven, kw_flips = Some [PStr ''e'', PStr ''b''], kw_alphabet = None\<rparr>
     = Inl (TypeError ''The flip list is not valid'')"
  by (simp add: GeneralizedPermutation_def resolve_reduction_def resolve_flips_def
      build_generalized_def normalize_args_def two_rows_def split_ws_def is_space_def)

text \<open>
  The amended statement on the input \<^verbatim>\<open>('a b c a','d c c b',flips=['a','b'])\<close>, and on
  \<^verbatim>\<open>('a b b','c c a')\<close>, which returns.
\<close>

theorem generalized_letters_twice_witness:
  "GeneralizedPermutation (Fresh [PStr ''a b c a'', PStr ''d c c b''])
       \<lparr>kw_reduced = NotGiven, kw_flips = Some [PStr ''a'', PStr ''b''], kw_alphabet = None\<rparr>
     = Inl (ValueError ''Letters must reappear twice'')
   \<and> GeneralizedPermutation (Fresh [PStr ''a b b'', PStr ''c c a''])
       \<lparr>kw_reduced = NotGiven, kw_flips = None, kw_alphabet = None\<rparr>
     = Inr (Returned (new_perm LabelledPermutationLI
         ([PStr ''a'', PStr ''b'', PStr ''b''], [PStr ''c'', PStr ''c'', PStr ''a'']) None []))
   \<and> count_list ([PStr ''a'', PStr ''b'', PStr ''b''] @ [PStr ''c'', PStr ''c'', PStr ''a''])
         (PStr ''b'') = 2"
proof -
  have n1: "normalize_args [PStr ''a b c a'', PStr ''d c c b''] =
     Inr ([PStr ''a'', PStr ''b'', PStr ''c'', PStr ''a''],
          [PStr ''d'', PStr ''c'', PStr ''c'', PStr ''b''])"
    by (simp add: normalize_args_def two_rows_def split_ws_def is_space_def)
  have n2: "normalize_args [PStr ''a b b'', PStr ''c c a''] =
     Inr ([PStr ''a'', PStr ''b'', PStr ''b''], [PStr ''c'', PStr ''c'', PStr ''a''])"
    by (simp add: normalize_args_def two_rows_def split_ws_def is_space_def)
  have e1: "GeneralizedPermutation (Fresh [PStr ''a b c a'', PStr ''d c c b''])
       \<lparr>kw_reduced = NotGiven, kw_flips = Some [PStr ''a'', PStr ''b''], kw_alphabet = None\<rparr>
     = Inl (ValueError ''Letters must reappear twice'')"
    using generalized_letters_twice [OF n1,
        of "\<lparr>kw_reduced = NotGiven, kw_flips = Some [PStr ''a'', PStr ''b''], kw_alphabet = None\<rparr>"]
    by (simp add: resolve_flips_def)
  have e2: "GeneralizedPermutation (Fresh [PStr ''a b b'', PStr ''c c a''])
       \<lparr>kw_reduced = NotGiven, kw_flips = None, kw_alphabet = None\<rparr>
     = Inr (Returned (new_perm LabelledPermutationLI
         ([PStr ''a'', PStr ''b'', PStr ''b''], [PStr ''c'', PStr ''c'', PStr ''a'']) None []))"
    by (simp add: GeneralizedPermutation_def resolve_reduction_def resolve_flips_def n2
        build_generalized_def)
  have e3: "count_list ([PStr ''a'', PStr ''b'', PStr ''b''] @ [PStr ''c'', PStr ''c'', PStr ''a''])
         (PStr ''b'') = 2"
    using generalized_letters_twice [OF n2,
        of "\<lparr>kw_reduced = NotGiven, kw_flips = None, kw_alphabet = None\<rparr>"] e2
    by (simp add: resolve_flips_def)
  from e1 e2 e3 show ?thesis by simp
qed

section \<open>The degenerate case and the admissible lengths\<close>

text \<open>
  Claim C3. When the input passes the check of the letters (so the flips were valid and
  every letter occurs twice in all) and both residual rows are empty,
  \<^verbatim>\<open>GeneralizedPermutation\<close> returns \<^verbatim>\<open>Permutation(a,**kargs)\<close>, the exchange constructor on
  the normalised rows with the same options, and this is what \<^verbatim>\<open>Permutation\<close> gives on
  the input itself. This holds for every valid set of flips, the empty one included.
\<close>

theorem degenerate_delegates:
  assumes "normalize_args xs = Inr a" and "kw_reduced k \<noteq> GivenOther"
    and "set (resolve_flips (kw_flips k)) \<subseteq> set (fst a @ snd a)"
    and "\<forall>letter \<in> set (fst a @ snd a). count_list (fst a @ snd a) letter = 2"
    and "strip_single (remdups (fst a @ snd a)) (fst a) (snd a) = Inr ([], [])"
  shows "GeneralizedPermutation (Fresh xs) k =
           Permutation (Fresh [PSeq [PSeq (fst a), PSeq (snd a)]]) k
       \<and> GeneralizedPermutation (Fresh xs) k = Permutation (Fresh xs) k"
  using delegation_value [OF assms] Permutation_of_rows [OF assms(1,2)] by simp

text \<open>
  The statement on the input \<^verbatim>\<open>('a b c','c b a')\<close> with no option.
\<close>

theorem degenerate_delegates_witness:
  "GeneralizedPermutation (Fresh [PStr ''a b c'', PStr ''c b a''])
       \<lparr>kw_reduced = NotGiven, kw_flips = None, kw_alphabet = None\<rparr>
   = Permutation (Fresh [PStr ''a b c'', PStr ''c b a''])
       \<lparr>kw_reduced = NotGiven, kw_flips = None, kw_alphabet = None\<rparr>"
proof -
  let ?a = "([PStr ''a'', PStr ''b'', PStr ''c''], [PStr ''c'', PStr ''b'', PStr ''a''])"
  let ?k = "\<lparr>kw_reduced = NotGiven, kw_flips = None, kw_alphabet = None\<rparr>"
  have n: "normalize_args [PStr ''a b c'', PStr ''c b a''] = Inr ?a"
    by (simp add: normalize_args_def two_rows_def split_ws_def is_space_def)
  have r: "kw_reduced ?k \<noteq> GivenOther"
    by simp
  have f: "set (resolve_flips (kw_flips ?k)) \<subseteq> set (fst ?a @ snd ?a)"
    by (simp add: resolve_flips_def)
  have tw: "\<forall>letter \<in> set (fst ?a @ snd ?a). count_list (fst ?a @ snd ?a) letter = 2"
    by simp
  have res: "strip_single (remdups (fst ?a @ snd ?a)) (fst ?a) (snd ?a) = Inr ([], [])"
    by simp
  from degenerate_delegates [OF n r f tw res] show ?thesis
    by (rule conjunct2)
qed

text \<open>
  Claim C4. When the input passes the check of the letters, the loop that strips the
  letters occurring once in the top row returns two residual rows, and if exactly one of
  them is empty the call raises \<^verbatim>\<open>ValueError("There is no admissible length")\<close> and
  builds nothing.
\<close>

theorem no_admissible_length:
  assumes "normalize_args xs = Inr a" and "kw_reduced k \<noteq> GivenOther"
    and "set (resolve_flips (kw_flips k)) \<subseteq> set (fst a @ snd a)"
    and "\<forall>letter \<in> set (fst a @ snd a). count_list (fst a @ snd a) letter = 2"
  shows "\<exists>b0 b1. strip_single (remdups (fst a @ snd a)) (fst a) (snd a) = Inr (b0, b1)
           \<and> ((b0 = []) \<noteq> (b1 = []) \<longrightarrow>
                GeneralizedPermutation (Fresh xs) k =
                  Inl (ValueError ''There is no admissible length''))"
proof -
  from residual_total [OF assms(4)] obtain b0 b1
    where res: "strip_single (remdups (fst a @ snd a)) (fst a) (snd a) = Inr (b0, b1)"
    by blast
  have "GeneralizedPermutation (Fresh xs) k = Inl (ValueError ''There is no admissible length'')"
    if "(b0 = []) \<noteq> (b1 = [])"
    unfolding GeneralizedPermutation_Fresh [OF assms(1,2)]
      build_generalized_checked [OF assms(3,4) res]
    using that by auto
  with res show ?thesis by blast
qed

text \<open>
  The statement on the input \<^verbatim>\<open>('a','a b b')\<close>: the residual rows are \<^verbatim>\<open>[]\<close> and
  \<^verbatim>\<open>['b','b']\<close>.
\<close>

theorem no_admissible_length_witness:
  "GeneralizedPermutation (Fresh [PStr ''a'', PStr ''a b b''])
       \<lparr>kw_reduced = NotGiven, kw_flips = None, kw_alphabet = None\<rparr>
   = Inl (ValueError ''There is no admissible length'')"
proof -
  have n: "normalize_args [PStr ''a'', PStr ''a b b''] =
     Inr ([PStr ''a''], [PStr ''a'', PStr ''b'', PStr ''b''])"
    by (simp add: normalize_args_def two_rows_def split_ws_def is_space_def)
  show ?thesis
    using no_admissible_length [OF n,
        of "\<lparr>kw_reduced = NotGiven, kw_flips = None, kw_alphabet = None\<rparr>"]
    by (simp add: resolve_flips_def)
qed

text \<open>
  Claim C10. When the degenerate case is reached (every letter twice in all, both
  residual rows empty), every letter occurs once in the top row and once in the bottom
  row; so the call \<^verbatim>\<open>Permutation(a,**kargs)\<close> cannot raise
  \<^verbatim>\<open>"letters must appear once in each interval"\<close>, and the result is the exchange class
  chosen by \<^verbatim>\<open>reduced\<close> and the flips.
\<close>

theorem delegation_never_fails:
  assumes "normalize_args xs = Inr a" and "kw_reduced k \<noteq> GivenOther"
    and "set (resolve_flips (kw_flips k)) \<subseteq> set (fst a @ snd a)"
    and "\<forall>letter \<in> set (fst a @ snd a). count_list (fst a @ snd a) letter = 2"
    and "strip_single (remdups (fst a @ snd a)) (fst a) (snd a) = Inr ([], [])"
  shows "(\<forall>letter \<in> set (fst a @ snd a).
            count_list (fst a) letter = 1 \<and> count_list (snd a) letter = 1)
       \<and> GeneralizedPermutation (Fresh xs) k =
            Inr (Returned (new_perm
              (if kw_reduced k = Given True
               then (if resolve_flips (kw_flips k) = [] then ReducedPermutationIET
                     else FlippedReducedPermutationIET)
               else (if resolve_flips (kw_flips k) = [] then LabelledPermutationIET
                     else FlippedLabelledPermutationIET))
              a (kw_alphabet k) (resolve_flips (kw_flips k))))"
proof -
  have once: "\<forall>letter \<in> set (fst a @ snd a).
                count_list (fst a) letter = 1 \<and> count_list (snd a) letter = 1"
    using residual_empty_once [OF assms(4,5)] by blast
  then have no: "\<not> (\<exists>letter \<in> set (fst a @ snd a).
                count_list (fst a) letter \<noteq> 1 \<or> count_list (snd a) letter \<noteq> 1)"
    by blast
  have red: "((case kw_reduced k of Given b \<Rightarrow> Some b | _ \<Rightarrow> None) = Some True)
             = (kw_reduced k = Given True)"
    by (cases "kw_reduced k") simp_all
  have "GeneralizedPermutation (Fresh xs) k = Permutation (Fresh xs) k"
    using delegation_value [OF assms] Permutation_of_rows [OF assms(1,2)] by simp
  also have "\<dots> = Inr (Returned (new_perm
              (if kw_reduced k = Given True
               then (if resolve_flips (kw_flips k) = [] then ReducedPermutationIET
                     else FlippedReducedPermutationIET)
               else (if resolve_flips (kw_flips k) = [] then LabelledPermutationIET
                     else FlippedLabelledPermutationIET))
              a (kw_alphabet k) (resolve_flips (kw_flips k))))"
    unfolding Permutation_Fresh [OF assms(1,2)] build_exchange_checked [OF assms(3)]
      if_not_P [OF no] red ..
  finally show ?thesis using once by blast
qed

text \<open>
  The statement on the group-theoretic permutation \<^verbatim>\<open>[2,1]\<close> with \<^verbatim>\<open>reduced=True\<close> and
  the flip \<^verbatim>\<open>1\<close>.
\<close>

theorem delegation_never_fails_witness:
  "count_list [PInt 1, PInt 2] (PInt 2) = 1 \<and> count_list [PInt 2, PInt 1] (PInt 2) = 1
   \<and> GeneralizedPermutation (Fresh [PPerm [2, 1]])
       \<lparr>kw_reduced = Given True, kw_flips = Some [PInt 1], kw_alphabet = None\<rparr>
     = Inr (Returned (new_perm FlippedReducedPermutationIET
         ([PInt 1, PInt 2], [PInt 2, PInt 1]) None [PInt 1]))"
proof -
  have n: "normalize_args [PPerm [2, 1]] = Inr ([PInt 1, PInt 2], [PInt 2, PInt 1])"
    by (simp add: normalize_args_def perm_rows_def upto.simps)
  show ?thesis
    using delegation_never_fails [OF n,
        of "\<lparr>kw_reduced = Given True, kw_flips = Some [PInt 1], kw_alphabet = None\<rparr>"]
    by (simp add: resolve_flips_def)
qed

section \<open>An argument that is already a permutation\<close>

text \<open>
  Claim C6. For every permutation object \<open>p\<close>, \<^verbatim>\<open>Permutation(p)\<close> with no option
  returns a copy of \<open>p\<close>, equal to it in value; so does \<^verbatim>\<open>Permutation\<close> applied to that
  result; and \<^verbatim>\<open>Permutation(p, reduced=True)\<close> on a reduced \<open>p\<close> returns a copy of \<open>p\<close>.
\<close>

theorem clone_round_trip:
  "Permutation (Existing p) \<lparr>kw_reduced = NotGiven, kw_flips = None, kw_alphabet = None\<rparr>
     = Inr (Returned p)
   \<and> (\<exists>q. Permutation (Existing p) \<lparr>kw_reduced = NotGiven, kw_flips = None, kw_alphabet = None\<rparr>
            = Inr (Returned q)
          \<and> Permutation (Existing q) \<lparr>kw_reduced = NotGiven, kw_flips = None, kw_alphabet = None\<rparr>
            = Inr (Returned p))
   \<and> (is_ReducedPermutation (obj_class p) \<longrightarrow>
        Permutation (Existing p) \<lparr>kw_reduced = Given True, kw_flips = None, kw_alphabet = None\<rparr>
          = Inr (Returned p))"
proof -
  have clone: "Permutation (Existing r)
        \<lparr>kw_reduced = NotGiven, kw_flips = None, kw_alphabet = None\<rparr> = Inr (Returned r)" for r
    by (simp add: Permutation_Existing resolve_flips_def convert_def copy_def)
  have red: "Permutation (Existing p)
        \<lparr>kw_reduced = Given True, kw_flips = None, kw_alphabet = None\<rparr> = Inr (Returned p)"
    if "is_ReducedPermutation (obj_class p)"
    using that
    by (simp add: Permutation_Existing resolve_flips_def convert_def copy_def reduced_not_labelled)
  from clone red show ?thesis by blast
qed

text \<open>
  The statement on a reduced permutation built from the rows \<^verbatim>\<open>a b\<close> and \<^verbatim>\<open>b a\<close>.
\<close>

theorem clone_round_trip_witness:
  "Permutation (Existing (new_perm ReducedPermutationIET
        ([PStr ''a'', PStr ''b''], [PStr ''b'', PStr ''a'']) None []))
      \<lparr>kw_reduced = Given True, kw_flips = None, kw_alphabet = None\<rparr>
   = Inr (Returned (new_perm ReducedPermutationIET
        ([PStr ''a'', PStr ''b''], [PStr ''b'', PStr ''a'']) None []))"
  using clone_round_trip [of "new_perm ReducedPermutationIET
        ([PStr ''a'', PStr ''b''], [PStr ''b'', PStr ''a'']) None []"]
  by (simp add: is_ReducedPermutation_def new_perm_def)

text \<open>
  Claim C5. The claim says that \<^verbatim>\<open>Permutation(p, reduced=False)\<close> on a reduced \<open>p\<close>, with
  no flips, rebuilds a labelled permutation from the rows of \<open>p\<close>, as the docstring
  (``False means labelled permutation'') promises. The code calls
  \<^verbatim>\<open>PermutationIET(args.list(), reduced=True)\<close>: the rebuilding is asked for with
  \<^verbatim>\<open>reduced=True\<close>. The evaluation below is the call on the reduced permutation of rows
  \<^verbatim>\<open>a b\<close> and \<^verbatim>\<open>b a\<close>. With \<^verbatim>\<open>reduced\<close> absent or \<^verbatim>\<open>True\<close> the result is a copy.
\<close>

theorem reduced_False_on_reduced_passes_True:
  "Permutation (Existing (new_perm ReducedPermutationIET
        ([PStr ''a'', PStr ''b''], [PStr ''b'', PStr ''a'']) None []))
      \<lparr>kw_reduced = Given False, kw_flips = None, kw_alphabet = None\<rparr>
   = Inr (TemplateCall PermutationIET
        ([PStr ''a'', PStr ''b''], [PStr ''b'', PStr ''a'']) True None)"
  by (simp add: Permutation_Existing resolve_flips_def convert_def list_of_def new_perm_def
      is_LabelledPermutation_def)

section \<open>The lengths of an interval exchange transformation\<close>

text \<open>
  Claim C7, as amended. Once the permutation argument is resolved to \<open>p\<close> and the lengths
  to the list \<open>l\<close>: a list whose length is not \<^verbatim>\<open>len(p)\<close> raises
  \<^verbatim>\<open>ValueError("bad number of lengths")\<close> whatever its entries are (the count is checked
  before any entry is converted). With the right length the entries are converted in
  order, and at the first entry \<open>x\<close> that stops the loop: a \<^verbatim>\<open>ValueError\<close> of \<^verbatim>\<open>float(x)\<close>
  becomes \<^verbatim>\<open>TypeError("unable to convert x to a float")\<close>, any other exception of
  \<^verbatim>\<open>float(x)\<close> goes to the caller as it is, and a float with \<^verbatim>\<open>y <= 0\<close> raises
  \<^verbatim>\<open>ValueError("lengths must be positive")\<close>. The object \<^verbatim>\<open>_IET(p, l)\<close> is built whenever
  every entry converts to a strictly positive float, and only when every entry converts
  to a float for which \<^verbatim>\<open>y <= 0\<close> is false.
\<close>

theorem lengths_validation:
  assumes "resolve_permutation ext permutation = Inr p"
    and "resolve_lengths ext p lengths = Inr l"
  shows "(length l \<noteq> len_py ext p \<longrightarrow>
            IntervalExchangeTransformation ext permutation lengths =
              Inl (ValueError ''bad number of lengths''))
       \<and> (length l = len_py ext p \<longrightarrow>
            ((\<forall>z \<in> set l. \<exists>y. float_py ext z = Inr y \<and> float_positive y) \<longrightarrow>
               IntervalExchangeTransformation ext permutation lengths = Inr (p, l))
          \<and> ((\<exists>res. IntervalExchangeTransformation ext permutation lengths = Inr res) \<longrightarrow>
               (\<forall>z \<in> set l. \<exists>y. float_py ext z = Inr y \<and> \<not> float_le_zero y))
          \<and> (l = pre @ x # post
               \<and> (\<forall>z \<in> set pre. \<exists>y. float_py ext z = Inr y \<and> \<not> float_le_zero y) \<longrightarrow>
               (float_py ext x = Inl (ValueError m) \<longrightarrow>
                  IntervalExchangeTransformation ext permutation lengths =
                    Inl (TypeError (''unable to convert '' @ repr_py ext x @ '' to a float'')))
             \<and> (float_py ext x = Inl e \<and> \<not> is_ValueError e \<longrightarrow>
                  IntervalExchangeTransformation ext permutation lengths = Inl e)
             \<and> (float_py ext x = Inr y \<and> float_le_zero y \<longrightarrow>
                  IntervalExchangeTransformation ext permutation lengths =
                    Inl (ValueError ''lengths must be positive''))))"
proof -
  note eq = IntervalExchangeTransformation_resolved [OF assms]
  have a: "IntervalExchangeTransformation ext permutation lengths =
             Inl (ValueError ''bad number of lengths'')"
    if "length l \<noteq> len_py ext p"
    using that by (simp add: eq)
  have b: "IntervalExchangeTransformation ext permutation lengths = Inr (p, l)"
    if "length l = len_py ext p" "\<forall>z \<in> set l. \<exists>y. float_py ext z = Inr y \<and> float_positive y"
  proof -
    from that(2) have "\<forall>z \<in> set l. \<exists>y. float_py ext z = Inr y \<and> \<not> float_le_zero y"
      using float_positive_not_le_zero by blast
    then have "check_entries ext l = None"
      by (simp only: check_entries_None_iff)
    with that(1) show ?thesis by (simp add: eq)
  qed
  have c: "\<forall>z \<in> set l. \<exists>y. float_py ext z = Inr y \<and> \<not> float_le_zero y"
    if "length l = len_py ext p" "\<exists>res. IntervalExchangeTransformation ext permutation lengths = Inr res"
  proof -
    from that have "check_entries ext l = None"
      by (auto simp: eq split: option.splits)
    then show ?thesis by (simp only: check_entries_None_iff)
  qed
  have skip: "check_entries ext l = check_entries ext (x # post)"
    if "l = pre @ x # post" "\<forall>z \<in> set pre. \<exists>y. float_py ext z = Inr y \<and> \<not> float_le_zero y"
    using that by (simp add: check_entries_skip)
  have d: "IntervalExchangeTransformation ext permutation lengths =
             Inl (TypeError (''unable to convert '' @ repr_py ext x @ '' to a float''))"
    if "length l = len_py ext p" "l = pre @ x # post"
       "\<forall>z \<in> set pre. \<exists>y. float_py ext z = Inr y \<and> \<not> float_le_zero y"
       "float_py ext x = Inl (ValueError m)"
    using that(1,4) skip [OF that(2,3)] by (simp add: eq)
  have e: "IntervalExchangeTransformation ext permutation lengths = Inl e"
    if "length l = len_py ext p" "l = pre @ x # post"
       "\<forall>z \<in> set pre. \<exists>y. float_py ext z = Inr y \<and> \<not> float_le_zero y"
       "float_py ext x = Inl e" "\<not> is_ValueError e"
    using that(1) skip [OF that(2,3)] check_entries_other_exception [OF that(4,5), of post]
    by (simp add: eq)
  have f: "IntervalExchangeTransformation ext permutation lengths =
             Inl (ValueError ''lengths must be positive'')"
    if "length l = len_py ext p" "l = pre @ x # post"
       "\<forall>z \<in> set pre. \<exists>y. float_py ext z = Inr y \<and> \<not> float_le_zero y"
       "float_py ext x = Inr y" "float_le_zero y"
    using that(1,4,5) skip [OF that(2,3)] by (simp add: eq)
  from a b c d e f show ?thesis by blast
qed

text \<open>
  The claim as first stated says that every failure of the conversion raises
  \<^verbatim>\<open>TypeError("unable to convert X to a float")\<close> and that the object is built only when
  every entry is strictly positive. On the rows \<^verbatim>\<open>('a b','b a')\<close>: the lengths
  \<^verbatim>\<open>[float('nan'), 1]\<close> build the object, since \<^verbatim>\<open>nan <= 0\<close> is false; the lengths
  \<^verbatim>\<open>[None, 1]\<close> raise the \<^verbatim>\<open>TypeError\<close> of \<^verbatim>\<open>float\<close> itself, and \<^verbatim>\<open>[10**400, 1]\<close> its
  \<^verbatim>\<open>OverflowError\<close>, neither being caught by \<^verbatim>\<open>except ValueError\<close>.
\<close>

theorem lengths_validation_counterexample:
  "IntervalExchangeTransformation example_externals
       (AValue (PSeq [PStr ''a b'', PStr ''b a''])) (LengthsSeq [EFloat NaN, EInt 1])
     = Inr (new_perm LabelledPermutationIET
              ([PStr ''a'', PStr ''b''], [PStr ''b'', PStr ''a'']) None [],
            [EFloat NaN, EInt 1])
   \<and> float_py example_externals (EFloat NaN) = Inr NaN
   \<and> \<not> float_positive NaN
   \<and> IntervalExchangeTransformation example_externals
       (AValue (PSeq [PStr ''a b'', PStr ''b a''])) (LengthsSeq [ENone, EInt 1])
     = Inl (TypeError ''float() argument must be a string or a number'')
   \<and> IntervalExchangeTransformation example_externals
       (AValue (PSeq [PStr ''a b'', PStr ''b a''])) (LengthsSeq [EInt (10 ^ 400), EInt 1])
     = Inl (OverflowError ''long int too large to convert to float'')"
proof -
  have len: "len_py example_externals
      (new_perm LabelledPermutationIET ([PStr ''a'', PStr ''b''], [PStr ''b'', PStr ''a'']) None [])
      = 2"
    by (simp add: example_externals_def new_perm_def)
  have fl: "float_py example_externals = float_entry"
    by (simp add: example_externals_def)
  have big: "\<not> \<bar>10 ^ 400 :: int\<bar> < 2 ^ 1024 - 2 ^ 970"
    by simp
  show ?thesis
    by (simp add: IntervalExchangeTransformation_def example_permutation resolve_lengths_def
        len fl big)
qed

text \<open>
  The amended statement on the rows \<^verbatim>\<open>('a b c','c b a')\<close> with the lengths
  \<^verbatim>\<open>[0.123, 2]\<close>, \<^verbatim>\<open>[0.1, 'rho', 2]\<close>, \<^verbatim>\<open>[0.1, None, 2]\<close>, \<^verbatim>\<open>[0.1, -2, 2]\<close> and
  \<^verbatim>\<open>[0.123, 0.4, 2]\<close>.
\<close>

theorem lengths_validation_witness:
  "IntervalExchangeTransformation example_externals
       (AValue (PSeq [PStr ''a b c'', PStr ''c b a'']))
       (LengthsSeq [EFloat (Finite 0.123), EInt 2])
     = Inl (ValueError ''bad number of lengths'')
   \<and> IntervalExchangeTransformation example_externals
       (AValue (PSeq [PStr ''a b c'', PStr ''c b a'']))
       (LengthsSeq [EFloat (Finite 0.1), EWord ''rho'', EInt 2])
     = Inl (TypeError (''unable to convert '' @ [CHR 0x27] @ ''rho'' @ [CHR 0x27] @ '' to a float''))
   \<and> IntervalExchangeTransformation example_externals
       (AValue (PSeq [PStr ''a b c'', PStr ''c b a'']))
       (LengthsSeq [EFloat (Finite 0.1), ENone, EInt 2])
     = Inl (TypeError ''float() argument must be a string or a number'')
   \<and> IntervalExchangeTransformation example_externals
       (AValue (PSeq [PStr ''a b c'', PStr ''c b a'']))
       (LengthsSeq [EFloat (Finite 0.1), EInt (- 2), EInt 2])
     = Inl (ValueError ''lengths must be positive'')
   \<and> IntervalExchangeTransformation example_externals
       (AValue (PSeq [PStr ''a b c'', PStr ''c b a'']))
       (LengthsSeq [EFloat (Finite 0.123), EFloat (Finite 0.4), EInt 2])
     = Inr (new_perm LabelledPermutationIET
              ([PStr ''a'', PStr ''b'', PStr ''c''], [PStr ''c'', PStr ''b'', PStr ''a'']) None [],
            [EFloat (Finite 0.123), EFloat (Finite 0.4), EInt 2])"
proof -
  let ?perm = "AValue (PSeq [PStr ''a b c'', PStr ''c b a''])"
  let ?p = "new_perm LabelledPermutationIET
              ([PStr ''a'', PStr ''b'', PStr ''c''], [PStr ''c'', PStr ''b'', PStr ''a'']) None []"
  have rp: "resolve_permutation example_externals ?perm = Inr ?p"
    by (simp add: resolve_permutation_def reduced_False_def Permutation_def
        resolve_reduction_def resolve_flips_def normalize_args_def two_rows_def split_ws_def
        is_space_def build_exchange_def result_object_def)
  have rl: "resolve_lengths example_externals ?p (LengthsSeq l) = Inr l" for l
    by (simp add: resolve_lengths_def)
  have len: "len_py example_externals ?p = 3"
    by (simp add: example_externals_def new_perm_def)
  have fl: "float_py example_externals = float_entry"
    by (simp add: example_externals_def)
  have rho: "repr_py example_externals (EWord ''rho'') = [CHR 0x27] @ ''rho'' @ [CHR 0x27]"
    by (simp add: example_externals_def)
  have two: "float_entry (EInt 2) = Inr (Finite 2)"
    by simp
  have pre: "\<forall>z \<in> set [EFloat (Finite 0.1)].
               \<exists>y. float_py example_externals z = Inr y \<and> \<not> float_le_zero y"
    by (simp add: fl)
  have 1: "IntervalExchangeTransformation example_externals ?perm
             (LengthsSeq [EFloat (Finite 0.123), EInt 2])
           = Inl (ValueError ''bad number of lengths'')"
    using lengths_validation [OF rp rl [of "[EFloat (Finite 0.123), EInt 2]"]] len
    by simp
  have 2: "IntervalExchangeTransformation example_externals ?perm
             (LengthsSeq [EFloat (Finite 0.1), EWord ''rho'', EInt 2])
           = Inl (TypeError (''unable to convert '' @ [CHR 0x27] @ ''rho'' @ [CHR 0x27] @ '' to a float''))"
  proof -
    let ?l = "[EFloat (Finite 0.1), EWord ''rho'', EInt 2]"
    have n: "length ?l = len_py example_externals ?p" by (simp add: len)
    have split: "?l = [EFloat (Finite 0.1)] @ EWord ''rho'' # [EInt 2]" by simp
    have bad: "float_py example_externals (EWord ''rho'')
               = Inl (ValueError (''could not convert string to float: '' @ ''rho''))"
      by (simp add: fl)
    from lengths_validation [OF rp rl [of ?l], where pre = "[EFloat (Finite 0.1)]"
        and x = "EWord ''rho''" and post = "[EInt 2]"
        and m = "''could not convert string to float: '' @ ''rho''"]
      n split pre bad
    have "IntervalExchangeTransformation example_externals ?perm (LengthsSeq ?l)
          = Inl (TypeError (''unable to convert '' @ repr_py example_externals (EWord ''rho'')
                            @ '' to a float''))"
      by blast
    then show ?thesis by (simp add: rho)
  qed
  have 3: "IntervalExchangeTransformation example_externals ?perm
             (LengthsSeq [EFloat (Finite 0.1), ENone, EInt 2])
           = Inl (TypeError ''float() argument must be a string or a number'')"
  proof -
    let ?l = "[EFloat (Finite 0.1), ENone, EInt 2]"
    have n: "length ?l = len_py example_externals ?p" by (simp add: len)
    have split: "?l = [EFloat (Finite 0.1)] @ ENone # [EInt 2]" by simp
    have bad: "float_py example_externals ENone
                 = Inl (TypeError ''float() argument must be a string or a number'')
               \<and> \<not> is_ValueError (TypeError ''float() argument must be a string or a number'')"
      by (simp add: fl is_ValueError_def)
    from lengths_validation [OF rp rl [of ?l], where pre = "[EFloat (Finite 0.1)]"
        and x = ENone and post = "[EInt 2]"
        and e = "TypeError ''float() argument must be a string or a number''"]
      n split pre bad
    show ?thesis by blast
  qed
  have 4: "IntervalExchangeTransformation example_externals ?perm
             (LengthsSeq [EFloat (Finite 0.1), EInt (- 2), EInt 2])
           = Inl (ValueError ''lengths must be positive'')"
  proof -
    let ?l = "[EFloat (Finite 0.1), EInt (- 2), EInt 2]"
    have n: "length ?l = len_py example_externals ?p" by (simp add: len)
    have split: "?l = [EFloat (Finite 0.1)] @ EInt (- 2) # [EInt 2]" by simp
    have bad: "float_py example_externals (EInt (- 2)) = Inr (Finite (- 2))
               \<and> float_le_zero (Finite (- 2))"
      by (simp add: fl)
    from lengths_validation [OF rp rl [of ?l], where pre = "[EFloat (Finite 0.1)]"
        and x = "EInt (- 2)" and post = "[EInt 2]" and y = "Finite (- 2)"]
      n split pre bad
    show ?thesis by blast
  qed
  have 5: "IntervalExchangeTransformation example_externals ?perm
             (LengthsSeq [EFloat (Finite 0.123), EFloat (Finite 0.4), EInt 2])
           = Inr (?p, [EFloat (Finite 0.123), EFloat (Finite 0.4), EInt 2])"
  proof -
    let ?l = "[EFloat (Finite 0.123), EFloat (Finite 0.4), EInt 2]"
    have n: "length ?l = len_py example_externals ?p" by (simp add: len)
    have ok: "\<exists>y. float_py example_externals z = Inr y \<and> float_positive y"
      if "float_entry z = Inr (Finite r)" "0 < r" for z r
      using that by (intro exI [of _ "Finite r"]) (simp add: fl)
    have all: "\<forall>z \<in> set ?l. \<exists>y. float_py example_externals z = Inr y \<and> float_positive y"
      using ok [of "EFloat (Finite 0.123)" "0.123"] ok [of "EFloat (Finite 0.4)" "0.4"]
        ok [of "EInt 2" 2]
      by simp
    from lengths_validation [OF rp rl [of ?l]] n all
    show ?thesis by blast
  qed
  from 1 2 3 4 5 show ?thesis by simp
qed

end
